theory Spec2Isabelle
  imports Complex_Main "HOL-Library.AList"
begin

section \<open>Coverage dictionaries of \<open>pyspatialopt/models/covering.py\<close>\<close>

text \<open>
  The module works on nested Python dictionaries. A dictionary is modelled as an
  association list in insertion order; a Python dictionary has distinct keys, and a
  loop \<^verbatim>\<open>for k in d: ... d[k] ...\<close> visits the entries of the list in order.
  A lookup \<^verbatim>\<open>d[k]\<close> with a key that may be missing is \<open>getitem\<close>, which raises
  \<^verbatim>\<open>KeyError\<close>; an assignment \<^verbatim>\<open>d[k] = v\<close> is \<open>AList.update\<close>, which replaces
  the value of an existing key in place and appends a new key at the end, as Python does.

  Numbers (Python \<^verbatim>\<open>int\<close> or \<^verbatim>\<open>float\<close>) are exact rationals; identifiers of demand
  units, facilities and facility types are strings.

  An exception is a value of the type \<open>error\<close>. A \<^verbatim>\<open>KeyError\<close> raised by a lookup
  carries the missing key; the texts that the source passes to its exceptions are kept
  without their quotation marks, and the two \<^verbatim>\<open>ValueError\<close> texts of
  \<open>validate_coverage\<close> without the lists formatted into them.
\<close>

datatype error =
    KeyError string
  | ValueError string
  | IndexError
  | ZeroDivisionError

definition getitem :: "(string \<times> 'v) list \<Rightarrow> string \<Rightarrow> error + 'v" where
  "getitem d k = (case map_of d k of None \<Rightarrow> Inl (KeyError k) | Some v \<Rightarrow> Inr v)"

text \<open>Sequencing of steps that may raise: the first exception ends the computation.\<close>

definition ebind :: "error + 'a \<Rightarrow> ('a \<Rightarrow> error + 'b) \<Rightarrow> error + 'b" where
  "ebind m f = (case m of Inl e \<Rightarrow> Inl e | Inr x \<Rightarrow> f x)"

fun emap :: "('a \<Rightarrow> error + 'b) \<Rightarrow> 'a list \<Rightarrow> error + 'b list" where
  "emap f [] = Inr []"
| "emap f (x # xs) =
     (case f x of
        Inl e \<Rightarrow> Inl e
      | Inr y \<Rightarrow> (case emap f xs of Inl e \<Rightarrow> Inl e | Inr ys \<Rightarrow> Inr (y # ys)))"

text \<open>
  \<^verbatim>\<open>coverage_dict["type"]\<close> holds the keys \<^verbatim>\<open>"type"\<close> and \<^verbatim>\<open>"mode"\<close>; either may be
  absent, which \<open>validate_coverage\<close> reports.
\<close>

record type_info =
  ttype :: "string option"
  mode :: "string option"

text \<open>
  One entry of \<^verbatim>\<open>coverage_dict["demand"]\<close>. The type \<open>'s\<close> is the type of the value
  stored under \<^verbatim>\<open>"serviceableDemand"\<close> (a number in every input; \<open>merge_coverages\<close>
  can store something else there), and \<open>'c\<close> is the shape of one entry of
  \<^verbatim>\<open>"coverage"\<close>: a dictionary from facility id to coverage strength for binary and
  partial coverages, a list of dictionaries for the TRAUMAH coverage.
\<close>

record ('s, 'c) demand_record =
  demand :: rat
  serviceableDemand :: 's
  coverage :: "(string \<times> 'c) list"

text \<open>
  The coverage dictionary itself. \<open>demands\<close> is \<^verbatim>\<open>coverage_dict["demand"]\<close> (the field
  name \<open>demand\<close> is taken by the demand record); \<open>facilities\<close> maps a facility type to
  the collection of facility ids the builders iterate over, a list of ids.
\<close>

record ('s, 'c) coverage_dict =
  ctype :: "type_info option"
  facilities :: "(string \<times> string list) list"
  demands :: "(string \<times> ('s, 'c) demand_record) list"
  totalServiceableDemand :: rat

type_synonym strengths = "(string \<times> rat) list"

subsection \<open>\<open>update_serviceable_demand\<close>\<close>

text \<open>
  The function mutates \<^verbatim>\<open>coverage\<close> in place, one demand unit after the other, and
  assigns \<^verbatim>\<open>totalServiceableDemand\<close> after the loop. The model returns the state of
  the caller's dictionary after the call together with the outcome, so that what an
  exception leaves behind is visible. \<open>update_loop\<close> is the \<^verbatim>\<open>for\<close> loop: it returns the
  demand entries as they are when the loop ends or raises, and the running total.
\<close>

fun update_loop ::
  "(string \<times> (rat, 'c) demand_record) list \<Rightarrow> (string \<times> (rat, 'd) demand_record) list \<Rightarrow> rat
    \<Rightarrow> (string \<times> (rat, 'c) demand_record) list \<times> (error + rat)" where
  "update_loop [] sd total_sd = ([], Inr total_sd)"
| "update_loop ((d, r) # rest) sd total_sd =
     (case map_of sd d of
        None \<Rightarrow> ((d, r) # rest, Inl (KeyError d))
      | Some s \<Rightarrow>
          (case update_loop rest sd (total_sd + serviceableDemand s) of
             (rest', res) \<Rightarrow> ((d, r\<lparr>serviceableDemand := serviceableDemand s\<rparr>) # rest', res)))"

definition update_serviceable_demand ::
  "(rat, 'c) coverage_dict \<Rightarrow> (rat, 'd) coverage_dict \<Rightarrow> (rat, 'c) coverage_dict \<times> (error + unit)" where
  "update_serviceable_demand cov sd =
     (case update_loop (demands cov) (demands sd) 0 of
        (ds, Inl e) \<Rightarrow> (cov\<lparr>demands := ds\<rparr>, Inl e)
      | (ds, Inr total_sd) \<Rightarrow> (cov\<lparr>demands := ds, totalServiceableDemand := total_sd\<rparr>, Inr ()))"

text \<open>The demand ids of the store that the update has a value for.\<close>

definition has_update :: "(string \<times> 'a) list \<Rightarrow> string \<times> 'b \<Rightarrow> bool" where
  "has_update sd e = (fst e \<in> fst ` set sd)"

definition set_serviceable ::
  "(string \<times> (rat, 'd) demand_record) list \<Rightarrow> string \<times> (rat, 'c) demand_record
    \<Rightarrow> string \<times> (rat, 'c) demand_record" where
  "set_serviceable sd e =
     (fst e, (snd e)\<lparr>serviceableDemand :=
        (case map_of sd (fst e) of None \<Rightarrow> serviceableDemand (snd e) | Some s \<Rightarrow> serviceableDemand s)\<rparr>)"

subsection \<open>\<open>validate_coverage\<close>\<close>

definition validate_coverage ::
  "('s, 'c) coverage_dict \<Rightarrow> string list \<Rightarrow> string list \<Rightarrow> error + unit" where
  "validate_coverage coverage_dict modes types =
     (case ctype coverage_dict of
        None \<Rightarrow> Inl (KeyError ''type not found in coverage_dict'')
      | Some t \<Rightarrow>
          (case ttype t of
             None \<Rightarrow> Inl (KeyError ''type not found in coverage_dict[type]'')
           | Some ty \<Rightarrow>
               if ty \<notin> set types then Inl (ValueError ''Expected types'')
               else (case mode t of
                       None \<Rightarrow> Inl (KeyError ''mode not found in coverage_dict[type]'')
                     | Some m \<Rightarrow>
                         if m \<notin> set modes then Inl (ValueError ''Expected modes'')
                         else Inr ())))"

section \<open>The optimisation problem handed to PuLP\<close>

text \<open>
  The builders call the PuLP library. The model records what they pass to it: a variable
  is the argument list of \<^verbatim>\<open>pulp.LpVariable(name, lowBound, upBound, cat)\<close>, a linear
  expression is the list of its terms in the order the source adds them, a constraint is
  the expression, the comparison and the number on the right as the source writes them,
  with the name given in \<^verbatim>\<open>prob += constraint, name\<close>, and a problem is its name, its
  sense, the objective and the constraints in the order of the \<^verbatim>\<open>prob +=\<close> statements.
  What PuLP does with these afterwards (collecting equal variables of an expression,
  writing the LP file) is outside the module. So are PuLP's own checks on names: it
  replaces some characters of a name and refuses a constraint whose name an earlier
  constraint has; the identifiers of a coverage are taken to give distinct names.
\<close>

datatype category = LpInteger | LpContinuous

record lp_variable =
  vname :: string
  lowBound :: "rat option"
  upBound :: "rat option"
  cat :: category

definition LpVariable :: "string \<Rightarrow> rat option \<Rightarrow> rat option \<Rightarrow> category \<Rightarrow> lp_variable" where
  "LpVariable n lo up c = \<lparr>vname = n, lowBound = lo, upBound = up, cat = c\<rparr>"

type_synonym lin_expr = "(rat \<times> lp_variable) list"

text \<open>\<^verbatim>\<open>pulp.lpSum\<close> of a list of variables, and the difference of two expressions.\<close>

definition lpSum :: "lp_variable list \<Rightarrow> lin_expr" where
  "lpSum vs = map (\<lambda>v. (1, v)) vs"

definition minus_expr :: "lin_expr \<Rightarrow> lin_expr \<Rightarrow> lin_expr" where
  "minus_expr a b = a @ map (\<lambda>(c, v). (- c, v)) b"

datatype sense = LE | GE | EQ

record lp_constraint =
  cname :: "string option"
  lhs :: lin_expr
  csense :: sense
  rhs :: rat

datatype objective_sense = LpMinimize | LpMaximize

record lp_problem =
  pname :: string
  psense :: objective_sense
  objective :: lin_expr
  constraints :: "lp_constraint list"

text \<open>Assignments of values to variables, and what it means to satisfy a problem.\<close>

definition eval_expr :: "(lp_variable \<Rightarrow> rat) \<Rightarrow> lin_expr \<Rightarrow> rat" where
  "eval_expr a e = sum_list (map (\<lambda>(c, v). c * a v) e)"

definition satisfies :: "(lp_variable \<Rightarrow> rat) \<Rightarrow> lp_constraint \<Rightarrow> bool" where
  "satisfies a c =
     (case csense c of
        LE \<Rightarrow> eval_expr a (lhs c) \<le> rhs c
      | GE \<Rightarrow> eval_expr a (lhs c) \<ge> rhs c
      | EQ \<Rightarrow> eval_expr a (lhs c) = rhs c)"

definition within_bounds :: "(lp_variable \<Rightarrow> rat) \<Rightarrow> lp_variable \<Rightarrow> bool" where
  "within_bounds a v =
     ((case lowBound v of None \<Rightarrow> True | Some l \<Rightarrow> l \<le> a v)
    \<and> (case upBound v of None \<Rightarrow> True | Some u \<Rightarrow> a v \<le> u)
    \<and> (case cat v of LpContinuous \<Rightarrow> True | LpInteger \<Rightarrow> a v = of_int \<lfloor>a v\<rfloor>))"

definition variables :: "lp_problem \<Rightarrow> lp_variable list" where
  "variables prob = map snd (objective prob) @ concat (map (\<lambda>c. map snd (lhs c)) (constraints prob))"

definition feasible :: "(lp_variable \<Rightarrow> rat) \<Rightarrow> lp_problem \<Rightarrow> bool" where
  "feasible a prob =
     (list_all (satisfies a) (constraints prob) \<and> list_all (within_bounds a) (variables prob))"

section \<open>The model builders\<close>

text \<open>
  The \<^verbatim>\<open>isinstance\<close> checks of the builders hold by typing, and writing the model file is
  left out: a builder returns the problem or the exception it raises. The builders
  \<^verbatim>\<open>create_mclp_model\<close> and \<^verbatim>\<open>create_mclp_cc_model\<close> are not part of this development.
\<close>

subsection \<open>Parts shared by the builders\<close>

text \<open>
  \<^verbatim>\<open>facility_vars[facility_type][facility_id]\<close>: one integer variable per facility, with
  lower bound 0 and the upper bound the builder chooses.
\<close>

definition make_facility_vars ::
  "(string \<times> string list) list \<Rightarrow> string \<Rightarrow> rat option \<Rightarrow> (string \<times> (string \<times> lp_variable) list) list" where
  "make_facility_vars facs delineator up =
     map (\<lambda>(facility_type, ids).
            (facility_type,
             map (\<lambda>facility_id.
                    (facility_id, LpVariable (facility_type @ delineator @ facility_id) (Some 0) up LpInteger))
                 ids))
         facs"

definition facility_var_at ::
  "(string \<times> (string \<times> lp_variable) list) list \<Rightarrow> string \<Rightarrow> string \<Rightarrow> error + lp_variable" where
  "facility_var_at facility_vars facility_type facility_id =
     ebind (getitem facility_vars facility_type) (\<lambda>m. getitem m facility_id)"

text \<open>The variables of all facilities, type by type, as the loops over the facilities collect them.\<close>

definition all_facility_vars :: "(string \<times> (string \<times> lp_variable) list) list \<Rightarrow> lp_variable list" where
  "all_facility_vars facility_vars = concat (map (\<lambda>(facility_type, m). map snd m) facility_vars)"

text \<open>
  The two nested loops over \<^verbatim>\<open>coverage_dict["demand"][demand_id]["coverage"]\<close>: the
  (facility type, facility id, strength) triples in iteration order.
\<close>

definition coverage_pairs :: "('s, strengths) demand_record \<Rightarrow> (string \<times> string \<times> rat) list" where
  "coverage_pairs r =
     concat (map (\<lambda>(facility_type, m). map (\<lambda>(facility_id, s). (facility_type, facility_id, s)) m)
                 (coverage r))"

text \<open>\<^verbatim>\<open>to_sum\<close> of the binary builders: the variable of every covering facility.\<close>

definition covering_vars ::
  "(string \<times> (string \<times> lp_variable) list) list \<Rightarrow> ('s, strengths) demand_record \<Rightarrow> error + lp_variable list" where
  "covering_vars facility_vars r =
     emap (\<lambda>(facility_type, facility_id, s). facility_var_at facility_vars facility_type facility_id)
          (coverage_pairs r)"

text \<open>\<^verbatim>\<open>to_sum\<close> of the partial-coverage builders: strength times the facility's variable.\<close>

definition covering_terms ::
  "(string \<times> (string \<times> lp_variable) list) list \<Rightarrow> ('s, strengths) demand_record \<Rightarrow> error + lin_expr" where
  "covering_terms facility_vars r =
     emap (\<lambda>(facility_type, facility_id, s).
             ebind (facility_var_at facility_vars facility_type facility_id) (\<lambda>v. Inr (s, v)))
          (coverage_pairs r)"

text \<open>\<^verbatim>\<open>coverage_dict["demand"][demand_id][demand_var]\<close>.\<close>

definition demand_weight :: "bool \<Rightarrow> (rat, 'c) demand_record \<Rightarrow> rat" where
  "demand_weight use_serviceable_demand r =
     (if use_serviceable_demand then serviceableDemand r else demand r)"

text \<open>
  The constraints on the number of facilities: \<^verbatim>\<open>NumTotalFacilities\<close>, then one
  constraint for every facility type that \<^verbatim>\<open>num_fac\<close> names.
\<close>

definition number_constraints ::
  "(string \<times> (string \<times> lp_variable) list) list \<Rightarrow> (string \<times> rat) list \<Rightarrow> error + lp_constraint list" where
  "number_constraints facility_vars num_fac =
     ebind (getitem num_fac ''total'') (\<lambda>total_fac.
       Inr (\<lparr>cname = Some ''NumTotalFacilities'', lhs = lpSum (all_facility_vars facility_vars),
              csense = LE, rhs = total_fac\<rparr>
            # concat (map (\<lambda>(facility_type, m).
                 (case map_of num_fac facility_type of
                    None \<Rightarrow> []
                  | Some n \<Rightarrow>
                      if facility_type \<noteq> ''total''
                      then [\<lparr>cname = Some (''Num'' @ facility_type), lhs = lpSum (map snd m),
                             csense = LE, rhs = n\<rparr>]
                      else []))
               facility_vars)))"

subsection \<open>\<open>create_lscp_model\<close>\<close>

text \<open>
  The demand variables \<^verbatim>\<open>Y\<close> that the source creates are used by no constraint of the
  LSCP and are not part of the problem.
\<close>

definition lscp_constraint ::
  "(string \<times> (string \<times> lp_variable) list) list \<Rightarrow> string
    \<Rightarrow> string \<times> ('s, strengths) demand_record \<Rightarrow> error + lp_constraint" where
  "lscp_constraint facility_vars delineator e =
     ebind (covering_vars facility_vars (snd e)) (\<lambda>to_sum.
       Inr \<lparr>cname = Some (''D'' @ fst e),
            lhs = lpSum (if to_sum = []
                         then [LpVariable (''__dummy'' @ delineator @ fst e) (Some 0) (Some 0) LpInteger]
                         else to_sum),
            csense = GE, rhs = 1\<rparr>)"

definition create_lscp_model :: "('s, strengths) coverage_dict \<Rightarrow> string \<Rightarrow> error + lp_problem" where
  "create_lscp_model coverage_dict delineator =
     ebind (validate_coverage coverage_dict [''coverage''] [''binary'']) (\<lambda>_.
       let facility_vars = make_facility_vars (facilities coverage_dict) delineator (Some 1) in
       ebind (emap (lscp_constraint facility_vars delineator) (demands coverage_dict)) (\<lambda>cs.
         Inr \<lparr>pname = ''LSCP'', psense = LpMinimize,
              objective = lpSum (all_facility_vars facility_vars), constraints = cs\<rparr>))"

subsection \<open>\<open>create_backup_model\<close>\<close>

definition backup_var :: "string \<Rightarrow> string \<Rightarrow> lp_variable" where
  "backup_var delineator demand_id = LpVariable (''U'' @ delineator @ demand_id) (Some 0) (Some 1) LpInteger"

definition backup_constraint ::
  "(string \<times> (string \<times> lp_variable) list) list \<Rightarrow> string
    \<Rightarrow> string \<times> ('s, strengths) demand_record \<Rightarrow> error + lp_constraint" where
  "backup_constraint facility_vars delineator e =
     ebind (covering_vars facility_vars (snd e)) (\<lambda>to_sum.
       Inr \<lparr>cname = Some (''D'' @ fst e),
            lhs = minus_expr (lpSum to_sum) [(1, backup_var delineator (fst e))],
            csense = GE, rhs = 1\<rparr>)"

definition create_backup_model ::
  "(rat, strengths) coverage_dict \<Rightarrow> (string \<times> rat) list \<Rightarrow> string \<Rightarrow> bool \<Rightarrow> error + lp_problem" where
  "create_backup_model coverage_dict num_fac delineator use_serviceable_demand =
     ebind (validate_coverage coverage_dict [''coverage''] [''binary'']) (\<lambda>_.
       let facility_vars = make_facility_vars (facilities coverage_dict) delineator None in
       ebind (emap (backup_constraint facility_vars delineator) (demands coverage_dict)) (\<lambda>cs.
       ebind (number_constraints facility_vars num_fac) (\<lambda>ns.
         Inr \<lparr>pname = ''BCLP'', psense = LpMaximize,
              objective = map (\<lambda>(demand_id, r).
                                 (demand_weight use_serviceable_demand r, backup_var delineator demand_id))
                              (demands coverage_dict),
              constraints = cs @ ns\<rparr>)))"

subsection \<open>\<open>create_threshold_model\<close> and \<open>create_cc_threshold_model\<close>\<close>

text \<open>
  Both builders validate the coverage, then check \<^verbatim>\<open>psi\<close>, then create variables and
  constraints. The loop that scales the demand divides by \<^verbatim>\<open>sum_demand\<close> once per
  demand unit, so the division happens only when there is a demand unit; \<^verbatim>\<open>/\<close> is the
  division of Python 3, which raises \<^verbatim>\<open>ZeroDivisionError\<close> on a divisor 0 or 0.0.
\<close>

definition psi_error :: error where
  "psi_error = ValueError ''psi weight must be between 100 and 0''"

definition covered_var :: "string \<Rightarrow> string \<Rightarrow> lp_variable" where
  "covered_var delineator demand_id = LpVariable (''Y'' @ delineator @ demand_id) (Some 0) (Some 1) LpInteger"

definition cc_covered_var :: "string \<Rightarrow> string \<Rightarrow> lp_variable" where
  "cc_covered_var delineator demand_id = LpVariable (''Y'' @ delineator @ demand_id) (Some 0) None LpContinuous"

definition threshold_constraint ::
  "(string \<times> (string \<times> lp_variable) list) list \<Rightarrow> string
    \<Rightarrow> string \<times> ('s, strengths) demand_record \<Rightarrow> error + lp_constraint" where
  "threshold_constraint facility_vars delineator e =
     ebind (covering_vars facility_vars (snd e)) (\<lambda>to_sum.
       Inr \<lparr>cname = Some (''D'' @ fst e),
            lhs = minus_expr (lpSum to_sum) [(1, covered_var delineator (fst e))],
            csense = GE, rhs = 0\<rparr>)"

definition sum_demand :: "bool \<Rightarrow> (string \<times> (rat, 'c) demand_record) list \<Rightarrow> rat" where
  "sum_demand use_serviceable_demand ds =
     fold (\<lambda>(demand_id, r) acc. acc + demand_weight use_serviceable_demand r) ds 0"

definition scaled_term ::
  "bool \<Rightarrow> rat \<Rightarrow> string \<Rightarrow> string \<times> (rat, 'c) demand_record \<Rightarrow> error + rat \<times> lp_variable" where
  "scaled_term use_serviceable_demand total_demand delineator e =
     (if total_demand = 0 then Inl ZeroDivisionError
      else Inr ((100 / total_demand) * demand_weight use_serviceable_demand (snd e),
                covered_var delineator (fst e)))"

definition create_threshold_model ::
  "(rat, strengths) coverage_dict \<Rightarrow> rat \<Rightarrow> string \<Rightarrow> bool \<Rightarrow> error + lp_problem" where
  "create_threshold_model coverage_dict psi delineator use_serviceable_demand =
     ebind (validate_coverage coverage_dict [''coverage''] [''binary'']) (\<lambda>_.
       if psi > 100 \<or> psi < 0 then Inl psi_error
       else
         let facility_vars = make_facility_vars (facilities coverage_dict) delineator (Some 1) in
         ebind (emap (threshold_constraint facility_vars delineator) (demands coverage_dict)) (\<lambda>cs.
         ebind (emap (scaled_term use_serviceable_demand
                        (sum_demand use_serviceable_demand (demands coverage_dict)) delineator)
                     (demands coverage_dict)) (\<lambda>to_sum.
           Inr \<lparr>pname = ''ThresholdModel'', psense = LpMinimize,
                objective = lpSum (all_facility_vars facility_vars),
                constraints = cs @ [\<lparr>cname = None, lhs = to_sum, csense = GE, rhs = psi\<rparr>]\<rparr>)))"

definition cc_threshold_constraints ::
  "(string \<times> (string \<times> lp_variable) list) list \<Rightarrow> string \<Rightarrow> bool
    \<Rightarrow> string \<times> (rat, strengths) demand_record \<Rightarrow> error + lp_constraint list" where
  "cc_threshold_constraints facility_vars delineator use_serviceable_demand e =
     ebind (covering_terms facility_vars (snd e)) (\<lambda>to_sum.
       Inr [\<lparr>cname = Some (''D'' @ fst e),
             lhs = minus_expr to_sum [(1, cc_covered_var delineator (fst e))],
             csense = GE, rhs = 0\<rparr>,
            \<lparr>cname = None, lhs = [(1, cc_covered_var delineator (fst e))],
             csense = LE, rhs = demand_weight use_serviceable_demand (snd e)\<rparr>])"

definition cc_scaled_term ::
  "rat \<Rightarrow> string \<Rightarrow> string \<times> (rat, 'c) demand_record \<Rightarrow> error + rat \<times> lp_variable" where
  "cc_scaled_term total_demand delineator e =
     (if total_demand = 0 then Inl ZeroDivisionError
      else Inr (100 / total_demand, cc_covered_var delineator (fst e)))"

definition create_cc_threshold_model ::
  "(rat, strengths) coverage_dict \<Rightarrow> rat \<Rightarrow> string \<Rightarrow> bool \<Rightarrow> error + lp_problem" where
  "create_cc_threshold_model coverage_dict psi delineator use_serviceable_demand =
     ebind (validate_coverage coverage_dict [''coverage''] [''partial'']) (\<lambda>_.
       if psi > 100 \<or> psi < 0 then Inl psi_error
       else
         let facility_vars = make_facility_vars (facilities coverage_dict) delineator (Some 1) in
         ebind (emap (cc_threshold_constraints facility_vars delineator use_serviceable_demand)
                     (demands coverage_dict)) (\<lambda>cs.
         ebind (emap (cc_scaled_term (sum_demand use_serviceable_demand (demands coverage_dict)) delineator)
                     (demands coverage_dict)) (\<lambda>to_sum.
           Inr \<lparr>pname = ''ThresholdModel'', psense = LpMinimize,
                objective = lpSum (all_facility_vars facility_vars),
                constraints = concat cs
                  @ [\<lparr>cname = Some ''Threshold'', lhs = to_sum, csense = GE, rhs = psi\<rparr>]\<rparr>)))"

subsection \<open>\<open>create_bclpcc_model\<close>\<close>

text \<open>
  The third constraint of a demand unit is written
  \<^verbatim>\<open>primary_vars[demand_id] - overall_vars <= ...\<close>: the right operand is the whole
  dictionary \<^verbatim>\<open>overall_vars\<close>. PuLP subtracts a dictionary by subtracting each of its
  values, so the expression is the primary variable minus the overall variable of every
  demand unit, in the order of \<^verbatim>\<open>coverage_dict["demand"]\<close>.
\<close>

definition primary_var :: "string \<Rightarrow> string \<Rightarrow> lp_variable" where
  "primary_var delineator demand_id = LpVariable (''W'' @ delineator @ demand_id) (Some 0) None LpContinuous"

definition bclpcc_backup_var :: "string \<Rightarrow> string \<Rightarrow> lp_variable" where
  "bclpcc_backup_var delineator demand_id = LpVariable (''Y'' @ delineator @ demand_id) None None LpContinuous"

definition overall_var :: "string \<Rightarrow> string \<Rightarrow> lp_variable" where
  "overall_var delineator demand_id = LpVariable (''Z'' @ delineator @ demand_id) (Some 0) None LpContinuous"

definition bclpcc_constraints ::
  "(string \<times> (string \<times> lp_variable) list) list \<Rightarrow> string \<Rightarrow> bool \<Rightarrow> lp_variable list
    \<Rightarrow> string \<times> (rat, strengths) demand_record \<Rightarrow> error + lp_constraint list" where
  "bclpcc_constraints facility_vars delineator use_serviceable_demand overall_vars e =
     ebind (covering_terms facility_vars (snd e)) (\<lambda>to_sum.
       Inr [\<lparr>cname = Some (''D'' @ fst e),
             lhs = minus_expr to_sum [(1, overall_var delineator (fst e))],
             csense = GE, rhs = 0\<rparr>,
            \<lparr>cname = Some (''primarydemand'' @ fst e),
             lhs = [(1, primary_var delineator (fst e))],
             csense = LE, rhs = demand_weight use_serviceable_demand (snd e)\<rparr>,
            \<lparr>cname = Some (''primaryoverall'' @ fst e),
             lhs = minus_expr [(1, primary_var delineator (fst e))] (lpSum overall_vars),
             csense = LE, rhs = demand_weight use_serviceable_demand (snd e)\<rparr>,
            \<lparr>cname = Some (''overallbackup'' @ fst e),
             lhs = minus_expr [(1, overall_var delineator (fst e))]
                              [(1, bclpcc_backup_var delineator (fst e))],
             csense = GE, rhs = demand_weight use_serviceable_demand (snd e)\<rparr>,
            \<lparr>cname = Some (''overalldemand'' @ fst e),
             lhs = [(1, overall_var delineator (fst e))],
             csense = LE, rhs = 2 * demand_weight use_serviceable_demand (snd e)\<rparr>])"

definition backup_weight_error :: error where
  "backup_weight_error = ValueError ''Backup weight must be between 0 and 1''"

definition create_bclpcc_model ::
  "(rat, strengths) coverage_dict \<Rightarrow> (string \<times> rat) list \<Rightarrow> rat \<Rightarrow> string \<Rightarrow> bool
    \<Rightarrow> error + lp_problem" where
  "create_bclpcc_model coverage_dict num_fac backup_weight delineator use_serviceable_demand =
     ebind (validate_coverage coverage_dict [''coverage''] [''partial'']) (\<lambda>_.
       if backup_weight > 1 \<or> backup_weight < 0 then Inl backup_weight_error
       else
         let primary_weight = 1 - backup_weight;
             overall_vars = map (\<lambda>(demand_id, r). overall_var delineator demand_id) (demands coverage_dict);
             facility_vars = make_facility_vars (facilities coverage_dict) delineator None in
         ebind (emap (bclpcc_constraints facility_vars delineator use_serviceable_demand overall_vars)
                     (demands coverage_dict)) (\<lambda>cs.
         ebind (number_constraints facility_vars num_fac) (\<lambda>ns.
           Inr \<lparr>pname = ''BCLPCC'', psense = LpMaximize,
                objective = concat (map (\<lambda>(demand_id, r).
                                [(backup_weight, bclpcc_backup_var delineator demand_id),
                                 (primary_weight, primary_var delineator demand_id)])
                              (demands coverage_dict)),
                constraints = concat cs @ ns\<rparr>)))"

subsection \<open>\<open>create_traumah_model\<close>\<close>

text \<open>
  A TRAUMAH coverage stores, for a demand unit, lists of dictionaries: under
  \<^verbatim>\<open>"TraumaCenter"\<close> dictionaries with the key \<^verbatim>\<open>"TraumaCenter"\<close>, under
  \<^verbatim>\<open>"ADTCPair"\<close> dictionaries with the keys \<^verbatim>\<open>"AirDepot"\<close> and \<^verbatim>\<open>"TraumaCenter"\<close>.
\<close>

type_synonym refs = "(string \<times> string) list list"

fun efold :: "('a \<Rightarrow> 'st \<Rightarrow> error + 'st) \<Rightarrow> 'a list \<Rightarrow> 'st \<Rightarrow> error + 'st" where
  "efold f [] st = Inr st"
| "efold f (x # xs) st = (case f x st of Inl e \<Rightarrow> Inl e | Inr st' \<Rightarrow> efold f xs st')"

text \<open>\<^verbatim>\<open>s.split(sep)\<close> for a separator of one character, and \<^verbatim>\<open>xs[n]\<close> on a list.\<close>

fun split_char :: "char \<Rightarrow> string \<Rightarrow> string list" where
  "split_char sep [] = [[]]"
| "split_char sep (c # cs) =
     (if c = sep then [] # split_char sep cs
      else (case split_char sep cs of [] \<Rightarrow> [[c]] | p # ps \<Rightarrow> (c # p) # ps))"

definition list_index :: "'a list \<Rightarrow> nat \<Rightarrow> error + 'a" where
  "list_index xs n = (if n < length xs then Inr (xs ! n) else Inl IndexError)"

definition ground_var :: "string \<Rightarrow> string \<Rightarrow> lp_variable" where
  "ground_var delineator demand_id = LpVariable (''V'' @ delineator @ demand_id) (Some 0) (Some 1) LpInteger"

definition air_var :: "string \<Rightarrow> string \<Rightarrow> lp_variable" where
  "air_var delineator demand_id = LpVariable (''U'' @ delineator @ demand_id) (Some 0) (Some 1) LpInteger"

definition adtc_name :: "string \<Rightarrow> string \<Rightarrow> string \<Rightarrow> string" where
  "adtc_name delineator ad_id tc_id = ''Z'' @ delineator @ ad_id @ delineator @ tc_id"

text \<open>
  \<^verbatim>\<open>adtc_vars\<close> is a dictionary keyed by the variable's name; the header of the inner loop
  reads \<^verbatim>\<open>coverage_dict["facilities"]["TraumaCenter"]\<close> once per air depot.
\<close>

definition make_adtc_vars ::
  "(string \<times> string list) list \<Rightarrow> string \<Rightarrow> error + (string \<times> lp_variable) list" where
  "make_adtc_vars facs delineator =
     ebind (getitem facs ''AirDepot'') (\<lambda>ads.
       efold (\<lambda>ad_id vars.
                ebind (getitem facs ''TraumaCenter'') (\<lambda>tcs.
                  Inr (fold (\<lambda>tc_id m.
                               AList.update (adtc_name delineator ad_id tc_id)
                                 (LpVariable (adtc_name delineator ad_id tc_id) (Some 0) (Some 1) LpInteger) m)
                            tcs vars)))
             ads [])"

definition air_ground_constraint :: "string \<Rightarrow> string \<times> ('s, refs) demand_record \<Rightarrow> lp_constraint" where
  "air_ground_constraint delineator e =
     \<lparr>cname = Some (''AIR_GROUND_'' @ fst e),
      lhs = minus_expr (minus_expr [(1, covered_var delineator (fst e))]
                                   [(1, ground_var delineator (fst e))])
                       [(1, air_var delineator (fst e))],
      csense = LE, rhs = 0\<rparr>"

definition ground_constraint ::
  "(string \<times> (string \<times> lp_variable) list) list \<Rightarrow> string
    \<Rightarrow> string \<times> ('s, refs) demand_record \<Rightarrow> error + lp_constraint" where
  "ground_constraint facility_vars delineator e =
     ebind (getitem (coverage (snd e)) ''TraumaCenter'') (\<lambda>tcs.
     ebind (emap (\<lambda>tc. ebind (getitem tc ''TraumaCenter'')
                          (\<lambda>tc_id. facility_var_at facility_vars ''TraumaCenter'' tc_id)) tcs) (\<lambda>to_sum.
       Inr \<lparr>cname = Some (''GND_'' @ fst e),
            lhs = minus_expr [(1, ground_var delineator (fst e))] (lpSum to_sum),
            csense = LE, rhs = 0\<rparr>))"

definition air_constraint ::
  "(string \<times> lp_variable) list \<Rightarrow> string \<Rightarrow> string \<times> ('s, refs) demand_record \<Rightarrow> error + lp_constraint" where
  "air_constraint adtc_vars delineator e =
     ebind (getitem (coverage (snd e)) ''ADTCPair'') (\<lambda>pairs.
     ebind (emap (\<lambda>adtc_pair.
                    ebind (getitem adtc_pair ''AirDepot'') (\<lambda>ad_id.
                    ebind (getitem adtc_pair ''TraumaCenter'') (\<lambda>tc_id.
                      getitem adtc_vars (adtc_name delineator ad_id tc_id)))) pairs) (\<lambda>to_sum.
       Inr \<lparr>cname = Some (''AIR_'' @ fst e),
            lhs = minus_expr [(1, air_var delineator (fst e))] (lpSum to_sum),
            csense = LE, rhs = 0\<rparr>))"

text \<open>
  The last loop recovers the two ids from the key of \<^verbatim>\<open>adtc_vars\<close> with
  \<^verbatim>\<open>adtc_id.split("$")\<close>: the separator is the literal dollar sign, whatever
  \<^verbatim>\<open>delineator\<close> is.
\<close>

definition pairing_constraints ::
  "(string \<times> (string \<times> lp_variable) list) list \<Rightarrow> string \<times> lp_variable \<Rightarrow> error + lp_constraint list" where
  "pairing_constraints facility_vars kv =
     ebind (list_index (split_char CHR ''$'' (fst kv)) 2) (\<lambda>tc_id.
     ebind (facility_var_at facility_vars ''TraumaCenter'' tc_id) (\<lambda>tc_var.
     ebind (list_index (split_char CHR ''$'' (fst kv)) 1) (\<lambda>ad_id.
     ebind (facility_var_at facility_vars ''AirDepot'' ad_id) (\<lambda>ad_var.
       Inr [\<lparr>cname = Some (''GND_'' @ fst kv), lhs = minus_expr [(1, snd kv)] [(1, tc_var)],
             csense = LE, rhs = 0\<rparr>,
            \<lparr>cname = Some (''AIR_'' @ fst kv), lhs = minus_expr [(1, snd kv)] [(1, ad_var)],
             csense = LE, rhs = 0\<rparr>]))))"

definition create_traumah_model ::
  "('s, refs) coverage_dict \<Rightarrow> int \<Rightarrow> int \<Rightarrow> string \<Rightarrow> error + lp_problem" where
  "create_traumah_model coverage_dict num_ad num_tc delineator =
     ebind (validate_coverage coverage_dict [''coverage''] [''traumah'']) (\<lambda>_.
       let facility_vars = make_facility_vars (facilities coverage_dict) delineator (Some 1) in
       ebind (make_adtc_vars (facilities coverage_dict) delineator) (\<lambda>adtc_vars.
       ebind (getitem facility_vars ''AirDepot'') (\<lambda>ad_vars.
       ebind (getitem facility_vars ''TraumaCenter'') (\<lambda>tc_vars.
       ebind (emap (ground_constraint facility_vars delineator) (demands coverage_dict)) (\<lambda>gnd.
       ebind (emap (air_constraint adtc_vars delineator) (demands coverage_dict)) (\<lambda>air.
       ebind (emap (pairing_constraints facility_vars) adtc_vars) (\<lambda>pairing.
         Inr \<lparr>pname = ''TRAUMAH'', psense = LpMaximize,
              objective = map (\<lambda>(demand_id, r). (demand r, covered_var delineator demand_id))
                              (demands coverage_dict),
              constraints =
                [\<lparr>cname = Some ''NumAirDepot'', lhs = lpSum (map snd ad_vars),
                  csense = EQ, rhs = of_int num_ad\<rparr>,
                 \<lparr>cname = Some ''NumTraumaCenter'', lhs = lpSum (map snd tc_vars),
                  csense = EQ, rhs = of_int num_tc\<rparr>]
                @ map (air_ground_constraint delineator) (demands coverage_dict)
                @ gnd @ air @ concat pairing\<rparr>)))))))"

section \<open>\<open>merge_coverages\<close>\<close>

text \<open>
  The merge can assign to \<^verbatim>\<open>"serviceableDemand"\<close> the value it reads from
  \<^verbatim>\<open>coverage["demand"][demand]["coverage"]["demand"]\<close>, which is an entry of the coverage
  dictionary (a dictionary of strengths), not a number. The value under
  \<^verbatim>\<open>"serviceableDemand"\<close> of the stores being merged is therefore a \<open>pyval\<close>.
\<close>

datatype pyval = Num rat | Dict strengths

type_synonym store = "(pyval, strengths) coverage_dict"

text \<open>
  The loop over \<^verbatim>\<open>coverage["facilities"].items()\<close>: \<^verbatim>\<open>facility_type\<close> is a pair of a
  type name and the facilities stored under it, and the test \<^verbatim>\<open>not in facility_types\<close>
  compares such pairs: two of them are equal when the names are equal and the lists of
  facility ids are.
\<close>

fun check_facility_types ::
  "(string \<times> string list) list \<Rightarrow> (string \<times> string list) list \<Rightarrow> error + (string \<times> string list) list" where
  "check_facility_types [] facility_types = Inr facility_types"
| "check_facility_types (facility_type # items) facility_types =
     (if facility_type \<notin> set facility_types
      then check_facility_types items (facility_types @ [facility_type])
      else Inl (ValueError ''Conflicting facility types''))"

text \<open>
  The first loop over the coverages; its state is \<^verbatim>\<open>facility_types\<close>, \<^verbatim>\<open>demand_keys\<close>
  and \<^verbatim>\<open>coverage_type\<close>.
\<close>

definition read_type :: "('s, 'c) coverage_dict \<Rightarrow> error + string" where
  "read_type c =
     (case ctype c of
        None \<Rightarrow> Inl (KeyError ''type'')
      | Some t \<Rightarrow> (case ttype t of None \<Rightarrow> Inl (KeyError ''type'') | Some ty \<Rightarrow> Inr ty))"

fun merge_checks ::
  "store list \<Rightarrow> (string \<times> string list) list \<Rightarrow> string set list \<Rightarrow> string option
    \<Rightarrow> error + string set list \<times> string option" where
  "merge_checks [] facility_types demand_keys coverage_type = Inr (demand_keys, coverage_type)"
| "merge_checks (c # cs) facility_types demand_keys coverage_type =
     ebind (case coverage_type of None \<Rightarrow> read_type c | Some ty \<Rightarrow> Inr ty) (\<lambda>ty.
     ebind (validate_coverage c [''coverage''] [ty]) (\<lambda>_.
     ebind (check_facility_types (facilities c) facility_types) (\<lambda>facility_types'.
       merge_checks cs facility_types' (demand_keys @ [set (map fst (demands c))]) (Some ty))))"

definition demand_keys_valid :: "string set list \<Rightarrow> bool" where
  "demand_keys_valid demand_keys =
     list_all (\<lambda>keys. list_all (\<lambda>keys2. keys = keys2) demand_keys) demand_keys"

text \<open>
  The second loop. \<open>merge_fac\<close> is the body of the innermost loop: its state is the
  dictionary \<^verbatim>\<open>master_coverage["demand"][demand]["coverage"][facility_type]\<close> and the
  value of \<^verbatim>\<open>master_coverage["demand"][demand]["serviceableDemand"]\<close>; \<open>binary\<close> is
  \<^verbatim>\<open>coverage_type == "Binary"\<close> and \<open>crec\<close> is \<^verbatim>\<open>coverage["demand"][demand]\<close>.
\<close>

definition merge_fac ::
  "bool \<Rightarrow> (pyval, strengths) demand_record \<Rightarrow> string \<times> rat \<Rightarrow> strengths \<times> pyval
    \<Rightarrow> error + strengths \<times> pyval" where
  "merge_fac binary crec fv st =
     (if binary \<and> snd fv = 1
      then ebind (getitem (coverage crec) ''demand'') (\<lambda>m.
             Inr (AList.update (fst fv) (snd fv) (fst st), Dict m))
      else Inr (AList.update (fst fv) (snd fv) (fst st), snd st))"

text \<open>The body of the loop over the facility types of one demand unit of \<^verbatim>\<open>coverage\<close>.\<close>

definition merge_type ::
  "bool \<Rightarrow> (pyval, strengths) demand_record \<Rightarrow> string \<times> strengths
    \<Rightarrow> (pyval, strengths) demand_record \<Rightarrow> error + (pyval, strengths) demand_record" where
  "merge_type binary crec tm mrec =
     (let cov0 = (if fst tm \<notin> fst ` set (coverage mrec)
                  then AList.update (fst tm) [] (coverage mrec) else coverage mrec);
          m0 = (case map_of cov0 (fst tm) of None \<Rightarrow> [] | Some m \<Rightarrow> m)
      in ebind (efold (merge_fac binary crec) (snd tm) (m0, serviceableDemand mrec)) (\<lambda>st.
           Inr (mrec\<lparr>coverage := AList.update (fst tm) (fst st) cov0,
                     serviceableDemand := snd st\<rparr>)))"

text \<open>
  The body of the loop over the demand units of \<^verbatim>\<open>coverage\<close>; its state is
  \<^verbatim>\<open>master_coverage["demand"]\<close>, which is indexed with the demand id once per facility
  type.
\<close>

definition merge_demand ::
  "bool \<Rightarrow> string \<times> (pyval, strengths) demand_record
    \<Rightarrow> (string \<times> (pyval, strengths) demand_record) list
    \<Rightarrow> error + (string \<times> (pyval, strengths) demand_record) list" where
  "merge_demand binary e md =
     efold (\<lambda>tm md'.
              ebind (getitem md' (fst e)) (\<lambda>mrec.
              ebind (merge_type binary (snd e) tm mrec) (\<lambda>mrec'.
                Inr (AList.update (fst e) mrec' md'))))
           (coverage (snd e)) md"

definition merge_facilities ::
  "(string \<times> string list) list \<Rightarrow> (string \<times> string list) list \<Rightarrow> (string \<times> string list) list" where
  "merge_facilities master_facilities fs = fold (\<lambda>(facility_type, ids). AList.update facility_type ids) fs master_facilities"

definition merge_into :: "bool \<Rightarrow> store \<Rightarrow> store \<Rightarrow> error + store" where
  "merge_into binary c master_coverage =
     ebind (efold (merge_demand binary) (demands c) (demands master_coverage)) (\<lambda>md.
       Inr (master_coverage\<lparr>facilities := merge_facilities (facilities master_coverage) (facilities c),
                             demands := md\<rparr>))"

definition merge_coverages :: "store list \<Rightarrow> error + store" where
  "merge_coverages coverages =
     ebind (merge_checks coverages [] [] None) (\<lambda>(demand_keys, coverage_type).
       if \<not> demand_keys_valid demand_keys then Inl (ValueError ''Demand Keys Invalid'')
       else (case coverages of
               [] \<Rightarrow> Inl IndexError
             | c0 # cs \<Rightarrow> efold (merge_into (coverage_type = Some ''Binary'')) cs c0))"

section \<open>Coverages whose references resolve\<close>

text \<open>
  The variable that \<open>make_facility_vars\<close> stores for a facility, and the invariant of the
  data model that every facility named in the coverage of a demand unit is a facility of
  the coverage dictionary: under it no lookup in \<^verbatim>\<open>facility_vars\<close> raises.
\<close>

definition facility_var :: "string \<Rightarrow> rat option \<Rightarrow> string \<Rightarrow> string \<Rightarrow> lp_variable" where
  "facility_var delineator up facility_type facility_id =
     LpVariable (facility_type @ delineator @ facility_id) (Some 0) up LpInteger"

definition refs_ok :: "('s, strengths) coverage_dict \<Rightarrow> bool" where
  "refs_ok c =
     list_all (\<lambda>(demand_id, r).
        list_all (\<lambda>(facility_type, facility_id, s).
           (case map_of (facilities c) facility_type of
              None \<Rightarrow> False
            | Some ids \<Rightarrow> facility_id \<in> set ids))
          (coverage_pairs r))
       (demands c)"

section \<open>Constraint rows, stated apart from the builders\<close>

text \<open>
  The coverage row of the LSCP for a demand unit that no facility covers: a placeholder
  variable fixed to 0, required to be at least 1.
\<close>

definition dummy_row :: "string \<Rightarrow> string \<Rightarrow> lp_constraint" where
  "dummy_row delineator demand_id =
     \<lparr>cname = Some (''D'' @ demand_id),
      lhs = [(1, LpVariable (''__dummy'' @ delineator @ demand_id) (Some 0) (Some 0) LpInteger)],
      csense = GE, rhs = 1\<rparr>"

text \<open>The coverage row of the LSCP for any demand unit.\<close>

definition lscp_row :: "string \<Rightarrow> string \<times> ('s, strengths) demand_record \<Rightarrow> lp_constraint" where
  "lscp_row delineator e =
     (if coverage_pairs (snd e) = [] then dummy_row delineator (fst e)
      else \<lparr>cname = Some (''D'' @ fst e),
            lhs = lpSum (map (\<lambda>(facility_type, facility_id, s).
                                facility_var delineator (Some 1) facility_type facility_id)
                             (coverage_pairs (snd e))),
            csense = GE, rhs = 1\<rparr>)"

text \<open>
  The sited-indicators of the facilities that cover a demand unit in the backup model, and
  the row that links them to the backup indicator of the demand unit.
\<close>

definition covering_facility_vars :: "string \<Rightarrow> ('s, strengths) demand_record \<Rightarrow> lp_variable list" where
  "covering_facility_vars delineator r =
     map (\<lambda>(facility_type, facility_id, s). facility_var delineator None facility_type facility_id)
         (coverage_pairs r)"

definition backup_row :: "string \<Rightarrow> string \<Rightarrow> ('s, strengths) demand_record \<Rightarrow> lp_constraint" where
  "backup_row delineator demand_id r =
     \<lparr>cname = Some (''D'' @ demand_id),
      lhs = minus_expr (lpSum (covering_facility_vars delineator r)) [(1, backup_var delineator demand_id)],
      csense = GE, rhs = 1\<rparr>"

text \<open>The facilities of a list that an assignment sites: their sited-indicator is not 0.\<close>

definition sited :: "(lp_variable \<Rightarrow> rat) \<Rightarrow> lp_variable list \<Rightarrow> lp_variable list" where
  "sited a vs = filter (\<lambda>v. a v \<noteq> 0) vs"

section \<open>Dictionaries as maps\<close>

text \<open>
  Two Python dictionaries are equal when they hold the same values under the same keys,
  in whatever order. \<open>map_of\<close> turns a dictionary into the map it denotes, and
  \<open>cov_map\<close> does so for the two levels of the coverage of a demand unit.
\<close>

definition cov_map :: "('s, strengths) demand_record \<Rightarrow> string \<Rightarrow> (string \<Rightarrow> rat option) option" where
  "cov_map r = (\<lambda>facility_type. map_option map_of (map_of (coverage r) facility_type))"

text \<open>
  A well-formed coverage: the keys of every dictionary are distinct, and the coverage of
  a demand unit names facility types of the coverage dictionary only.
\<close>

definition wf_store :: "('s, strengths) coverage_dict \<Rightarrow> bool" where
  "wf_store c =
     (distinct (map fst (facilities c)) \<and> distinct (map fst (demands c))
      \<and> list_all (\<lambda>(demand_id, r).
           distinct (map fst (coverage r))
           \<and> list_all (\<lambda>(facility_type, m). distinct (map fst m)) (coverage r)
           \<and> list_all (\<lambda>(facility_type, m). facility_type \<in> fst ` set (facilities c)) (coverage r))
         (demands c))"

text \<open>
  What one round of the loop over the facility types of a demand unit does to the map of
  maps: the entries of \<^verbatim>\<open>coverage\<close> are written over those of \<^verbatim>\<open>master_coverage\<close>.
\<close>

definition cm_step ::
  "string \<times> strengths \<Rightarrow> (string \<Rightarrow> (string \<Rightarrow> rat option) option) \<Rightarrow> (string \<Rightarrow> (string \<Rightarrow> rat option) option)" where
  "cm_step tm cm = cm(fst tm \<mapsto> (case cm (fst tm) of None \<Rightarrow> Map.empty | Some m \<Rightarrow> m) ++ map_of (snd tm))"

section \<open>Concrete coverages\<close>

text \<open>Small coverages on which the functions are run in the theorems below.\<close>

definition binary_type :: type_info where
  "binary_type = \<lparr>ttype = Some ''binary'', mode = Some ''coverage''\<rparr>"

definition partial_type :: type_info where
  "partial_type = \<lparr>ttype = Some ''partial'', mode = Some ''coverage''\<rparr>"

definition ex_update_store :: "(rat, strengths) coverage_dict" where
  "ex_update_store =
     \<lparr>ctype = Some binary_type, facilities = [(''F'', [''1''])],
      demands = [(''d1'', \<lparr>demand = 10, serviceableDemand = 1, coverage = [(''F'', [(''1'', 1)])]\<rparr>),
                 (''d2'', \<lparr>demand = 20, serviceableDemand = 2, coverage = [(''F'', [])]\<rparr>)],
      totalServiceableDemand = 3\<rparr>"

definition ex_update_sd :: "(rat, strengths) coverage_dict" where
  "ex_update_sd =
     \<lparr>ctype = Some binary_type, facilities = [],
      demands = [(''d1'', \<lparr>demand = 10, serviceableDemand = 5, coverage = []\<rparr>)],
      totalServiceableDemand = 5\<rparr>"

definition constraints_named :: "string \<Rightarrow> lp_problem \<Rightarrow> lp_constraint list" where
  "constraints_named n p = filter (\<lambda>c. cname c = Some n) (constraints p)"

definition ex_bclpcc_store :: "(rat, strengths) coverage_dict" where
  "ex_bclpcc_store =
     \<lparr>ctype = Some partial_type, facilities = [(''F'', [''1''])],
      demands = [(''d1'', \<lparr>demand = 10, serviceableDemand = 10, coverage = [(''F'', [(''1'', 1/2)])]\<rparr>),
                 (''d2'', \<lparr>demand = 20, serviceableDemand = 20, coverage = [(''F'', [(''1'', 1/4)])]\<rparr>)],
      totalServiceableDemand = 30\<rparr>"

definition ex_merge_a :: "string \<Rightarrow> store" where
  "ex_merge_a ty =
     \<lparr>ctype = Some \<lparr>ttype = Some ty, mode = Some ''coverage''\<rparr>, facilities = [(''A'', [''1''])],
      demands = [(''d1'', \<lparr>demand = 10, serviceableDemand = Num 0, coverage = [(''A'', [])]\<rparr>)],
      totalServiceableDemand = 0\<rparr>"

definition ex_merge_b :: "string \<Rightarrow> store" where
  "ex_merge_b ty =
     \<lparr>ctype = Some \<lparr>ttype = Some ty, mode = Some ''coverage''\<rparr>, facilities = [(''B'', [''2''])],
      demands = [(''d1'', \<lparr>demand = 10, serviceableDemand = Num 10, coverage = [(''B'', [(''2'', 1)])]\<rparr>)],
      totalServiceableDemand = 10\<rparr>"

definition ex_shared_a :: store where
  "ex_shared_a =
     \<lparr>ctype = Some binary_type, facilities = [(''F'', [''1''])],
      demands = [(''d1'', \<lparr>demand = 10, serviceableDemand = Num 10, coverage = [(''F'', [(''1'', 1)])]\<rparr>)],
      totalServiceableDemand = 10\<rparr>"

definition ex_shared_b :: store where
  "ex_shared_b =
     \<lparr>ctype = Some binary_type, facilities = [(''F'', [''2''])],
      demands = [(''d1'', \<lparr>demand = 10, serviceableDemand = Num 0, coverage = [(''F'', [])]\<rparr>)],
      totalServiceableDemand = 0\<rparr>"

definition ex_traumah :: "(rat, refs) coverage_dict" where
  "ex_traumah =
     \<lparr>ctype = Some \<lparr>ttype = Some ''traumah'', mode = Some ''coverage''\<rparr>,
      facilities = [(''AirDepot'', [''a'']), (''TraumaCenter'', [''c''])],
      demands = [(''d1'', \<lparr>demand = 10, serviceableDemand = 10,
                   coverage = [(''TraumaCenter'', [[(''TraumaCenter'', ''c'')]]),
                               (''ADTCPair'', [[(''AirDepot'', ''a''), (''TraumaCenter'', ''c'')]])]\<rparr>)],
      totalServiceableDemand = 10\<rparr>"

definition ex_threshold_store :: "(rat, strengths) coverage_dict" where
  "ex_threshold_store =
     \<lparr>ctype = Some binary_type, facilities = [(''F'', [''1''])],
      demands = [(''d1'', \<lparr>demand = 10, serviceableDemand = 0, coverage = [(''F'', [(''1'', 1)])]\<rparr>),
                 (''d2'', \<lparr>demand = 30, serviceableDemand = 0, coverage = [(''F'', [])]\<rparr>)],
      totalServiceableDemand = 0\<rparr>"

definition ex_cc_threshold_store :: "(rat, strengths) coverage_dict" where
  "ex_cc_threshold_store =
     \<lparr>ctype = Some partial_type, facilities = [(''F'', [''1''])],
      demands = [(''d1'', \<lparr>demand = 10, serviceableDemand = 0, coverage = [(''F'', [(''1'', 1/2)])]\<rparr>)],
      totalServiceableDemand = 0\<rparr>"

definition ex_no_demand :: "type_info \<Rightarrow> (rat, strengths) coverage_dict" where
  "ex_no_demand t =
     \<lparr>ctype = Some t, facilities = [(''F'', [''1''])], demands = [], totalServiceableDemand = 0\<rparr>"

definition ex_lscp_store :: "(rat, strengths) coverage_dict" where
  "ex_lscp_store =
     \<lparr>ctype = Some binary_type, facilities = [(''F'', [''1'', ''2''])],
      demands = [(''d1'', \<lparr>demand = 10, serviceableDemand = 10, coverage = [(''F'', [(''1'', 1), (''2'', 1)])]\<rparr>),
                 (''d2'', \<lparr>demand = 20, serviceableDemand = 0, coverage = [(''F'', [])]\<rparr>)],
      totalServiceableDemand = 10\<rparr>"

definition ex_backup_store :: "(rat, strengths) coverage_dict" where
  "ex_backup_store =
     \<lparr>ctype = Some binary_type, facilities = [(''F'', [''1'', ''2''])],
      demands = [(''d1'', \<lparr>demand = 10, serviceableDemand = 10, coverage = [(''F'', [(''1'', 1), (''2'', 1)])]\<rparr>),
                 (''d2'', \<lparr>demand = 20, serviceableDemand = 20, coverage = [(''F'', [(''2'', 1)])]\<rparr>)],
      totalServiceableDemand = 30\<rparr>"

text \<open>An assignment for the backup model: facility 2 is sited once, nothing else is.\<close>

definition ex_sited_once :: "lp_variable \<Rightarrow> rat" where
  "ex_sited_once v = (if vname v = ''F$2'' then 1 else 0)"

text \<open>Another one: facility 2 is sited with the count 2, and \<open>d2\<close> is backup-covered.\<close>

definition ex_sited_twice :: "lp_variable \<Rightarrow> rat" where
  "ex_sited_twice v = (if vname v = ''F$2'' then 2 else if vname v = ''U$d2'' then 1 else 0)"

text \<open>The two merges of \<open>ex_merge_a\<close> and \<open>ex_merge_b\<close>, in either order.\<close>

definition ex_merged_ab :: "string \<Rightarrow> store" where
  "ex_merged_ab ty =
     \<lparr>ctype = Some \<lparr>ttype = Some ty, mode = Some ''coverage''\<rparr>,
      facilities = [(''A'', [''1'']), (''B'', [''2''])],
      demands = [(''d1'', \<lparr>demand = 10, serviceableDemand = Num 0,
                            coverage = [(''A'', []), (''B'', [(''2'', 1)])]\<rparr>)],
      totalServiceableDemand = 0\<rparr>"

definition ex_merged_ba :: "string \<Rightarrow> store" where
  "ex_merged_ba ty =
     \<lparr>ctype = Some \<lparr>ttype = Some ty, mode = Some ''coverage''\<rparr>,
      facilities = [(''B'', [''2'']), (''A'', [''1''])],
      demands = [(''d1'', \<lparr>demand = 10, serviceableDemand = Num 10,
                            coverage = [(''B'', [(''2'', 1)]), (''A'', [])]\<rparr>)],
      totalServiceableDemand = 10\<rparr>"

section \<open>Unfolding the model on concrete inputs\<close>

lemmas model_defs =
  ebind_def getitem_def validate_coverage_def LpVariable_def lpSum_def minus_expr_def
  make_facility_vars_def facility_var_at_def all_facility_vars_def coverage_pairs_def
  covering_vars_def covering_terms_def demand_weight_def number_constraints_def Let_def

lemmas merge_defs =
  merge_coverages_def merge_into_def merge_demand_def merge_type_def merge_fac_def
  merge_facilities_def demand_keys_valid_def read_type_def ebind_def getitem_def
  validate_coverage_def Let_def

section \<open>Serviceable-demand update: what a failed call leaves behind\<close>

lemma update_loop_entries:
  "fst (update_loop ds sd total_sd) =
     map (set_serviceable sd) (takeWhile (has_update sd) ds) @ dropWhile (has_update sd) ds"
proof (induction ds arbitrary: total_sd)
  case Nil
  show ?case by simp
next
  case (Cons e ds)
  obtain d r where e: "e = (d, r)" by (cases e)
  show ?case
  proof (cases "map_of sd d")
    case None
    then have "\<not> has_update sd (d, r)"
      by (simp add: has_update_def map_of_eq_None_iff)
    with None e show ?thesis by simp
  next
    case (Some s)
    then have h: "has_update sd (d, r)"
      by (auto simp: has_update_def dest: map_of_SomeD intro: rev_image_eqI)
    obtain rest' res where l: "update_loop ds sd (total_sd + serviceableDemand s) = (rest', res)"
      by (cases "update_loop ds sd (total_sd + serviceableDemand s)")
    from Some h e l Cons.IH [of "total_sd + serviceableDemand s"] show ?thesis
      by (simp add: set_serviceable_def)
  qed
qed

lemma update_loop_raises:
  "\<exists>e \<in> set ds. \<not> has_update sd e \<Longrightarrow>
     snd (update_loop ds sd total_sd) = Inl (KeyError (fst (hd (dropWhile (has_update sd) ds))))"
proof (induction ds arbitrary: total_sd)
  case Nil
  then show ?case by simp
next
  case (Cons e ds)
  obtain d r where e: "e = (d, r)" by (cases e)
  show ?case
  proof (cases "map_of sd d")
    case None
    then have "\<not> has_update sd (d, r)"
      by (simp add: has_update_def map_of_eq_None_iff)
    with None e show ?thesis by simp
  next
    case (Some s)
    then have h: "has_update sd (d, r)"
      by (auto simp: has_update_def dest: map_of_SomeD intro: rev_image_eqI)
    with Cons.prems e have "\<exists>e \<in> set ds. \<not> has_update sd e" by auto
    obtain rest' res where l: "update_loop ds sd (total_sd + serviceableDemand s) = (rest', res)"
      by (cases "update_loop ds sd (total_sd + serviceableDemand s)")
    from Cons.IH [OF \<open>\<exists>e \<in> set ds. \<not> has_update sd e\<close>, of "total_sd + serviceableDemand s"] Some h e l
    show ?thesis
      by simp
  qed
qed

text \<open>
  Claim C6, as the code has it. When the update lacks a demand id of the store, the call
  raises \<^verbatim>\<open>KeyError\<close> for the first such id in iteration order and leaves
  \<^verbatim>\<open>totalServiceableDemand\<close>, the facilities and the type untouched. The demand
  units from the first missing id onwards are untouched too, but every demand unit before
  it already carries its new serviceable demand: the loop writes in place.
\<close>

theorem update_serviceable_demand_missing_id:
  assumes "\<exists>e \<in> set (demands cov). \<not> has_update (demands sd) e"
  shows "snd (update_serviceable_demand cov sd) =
           Inl (KeyError (fst (hd (dropWhile (has_update (demands sd)) (demands cov)))))
       \<and> totalServiceableDemand (fst (update_serviceable_demand cov sd)) =
           totalServiceableDemand cov
       \<and> facilities (fst (update_serviceable_demand cov sd)) = facilities cov
       \<and> ctype (fst (update_serviceable_demand cov sd)) = ctype cov
       \<and> demands (fst (update_serviceable_demand cov sd)) =
           map (set_serviceable (demands sd)) (takeWhile (has_update (demands sd)) (demands cov))
           @ dropWhile (has_update (demands sd)) (demands cov)"
proof -
  obtain ds res where l: "update_loop (demands cov) (demands sd) 0 = (ds, res)"
    by (cases "update_loop (demands cov) (demands sd) 0")
  from update_loop_raises [OF assms, of 0] l
  have res: "res = Inl (KeyError (fst (hd (dropWhile (has_update (demands sd)) (demands cov)))))"
    by simp
  from update_loop_entries [of "demands cov" "demands sd" 0] l
  have ds: "ds = map (set_serviceable (demands sd)) (takeWhile (has_update (demands sd)) (demands cov))
           @ dropWhile (has_update (demands sd)) (demands cov)"
    by simp
  from l res have "update_serviceable_demand cov sd =
      (cov\<lparr>demands := ds\<rparr>,
       Inl (KeyError (fst (hd (dropWhile (has_update (demands sd)) (demands cov))))))"
    by (simp add: update_serviceable_demand_def)
  with ds show ?thesis by simp
qed

text \<open>
  The theorem at a store with the demand units \<open>d1\<close> and \<open>d2\<close> and an update that
  knows \<open>d1\<close> only.
\<close>

theorem update_serviceable_demand_missing_id_witness:
  "(\<exists>e \<in> set (demands ex_update_store). \<not> has_update (demands ex_update_sd) e)
   \<and> snd (update_serviceable_demand ex_update_store ex_update_sd) = Inl (KeyError ''d2'')
   \<and> totalServiceableDemand (fst (update_serviceable_demand ex_update_store ex_update_sd)) = 3
   \<and> demands (fst (update_serviceable_demand ex_update_store ex_update_sd)) =
        [(''d1'', \<lparr>demand = 10, serviceableDemand = 5, coverage = [(''F'', [(''1'', 1)])]\<rparr>),
         (''d2'', \<lparr>demand = 20, serviceableDemand = 2, coverage = [(''F'', [])]\<rparr>)]"
proof -
  have h: "\<exists>e \<in> set (demands ex_update_store). \<not> has_update (demands ex_update_sd) e"
    by (simp add: ex_update_store_def ex_update_sd_def has_update_def)
  from update_serviceable_demand_missing_id [OF h] h show ?thesis
    by (simp add: ex_update_store_def ex_update_sd_def has_update_def set_serviceable_def)
qed

text \<open>
  Claim C6 as stated fails there: the update has no value for \<open>d2\<close>, the call raises, and
  the serviceable demand of \<open>d1\<close> has changed from 1 to 5 all the same.
\<close>

theorem update_serviceable_demand_partial_counterexample:
  "\<not> has_update (demands ex_update_sd) (''d2'', \<lparr>demand = 20, serviceableDemand = 2, coverage = [(''F'', [])]\<rparr>)
   \<and> snd (update_serviceable_demand ex_update_store ex_update_sd) = Inl (KeyError ''d2'')
   \<and> map_of (demands ex_update_store) ''d1''
        = Some \<lparr>demand = 10, serviceableDemand = 1, coverage = [(''F'', [(''1'', 1)])]\<rparr>
   \<and> map_of (demands (fst (update_serviceable_demand ex_update_store ex_update_sd))) ''d1''
        = Some \<lparr>demand = 10, serviceableDemand = 5, coverage = [(''F'', [(''1'', 1)])]\<rparr>"
  by (simp add: update_serviceable_demand_def ex_update_store_def ex_update_sd_def has_update_def)

section \<open>BCLPCC: the constraint between primary and overall coverage\<close>

text \<open>
  Claim C1 asks for the per-demand chain in which the third constraint is
  \<open>primary[d] - overall[d] \<le> weight[d]\<close>. On a partial coverage with the two demand units
  \<open>d1\<close> and \<open>d2\<close> the builder emits, under the name \<open>primaryoveralld1\<close>, the constraint
  \<open>W$d1 - Z$d1 - Z$d2 \<le> 10\<close>: the overall variable of the other demand unit is
  subtracted as well.
\<close>

theorem create_bclpcc_model_primaryoverall_two_demands:
  "ebind (create_bclpcc_model ex_bclpcc_store [(''total'', 1)] (1/2) ''$'' False)
         (\<lambda>p. Inr (constraints_named ''primaryoveralld1'' p))
   = Inr [\<lparr>cname = Some ''primaryoveralld1'',
            lhs = [(1, primary_var ''$'' ''d1''), (- 1, overall_var ''$'' ''d1''),
                   (- 1, overall_var ''$'' ''d2'')],
            csense = LE, rhs = 10\<rparr>]"
  by (simp add: create_bclpcc_model_def bclpcc_constraints_def ex_bclpcc_store_def partial_type_def
      constraints_named_def primary_var_def overall_var_def bclpcc_backup_var_def model_defs)

section \<open>TRAUMAH: the pairing constraints and the delineator\<close>

text \<open>
  Claim C5 asks for the two constraints that cap a pairing variable, for every delineator.
  With one air depot \<open>a\<close> and one trauma center \<open>c\<close> the builder emits them when the
  delineator is the dollar sign; with the delineator \<open>_\<close> the key \<open>Z_a_c\<close> has no
  dollar sign to split at, and the builder raises \<^verbatim>\<open>IndexError\<close>.
\<close>

theorem create_traumah_model_other_delineator:
  "create_traumah_model ex_traumah 1 1 ''_'' = Inl IndexError
   \<and> ebind (create_traumah_model ex_traumah 1 1 ''$'')
            (\<lambda>p. Inr (constraints_named ''GND_Z$a$c'' p @ constraints_named ''AIR_Z$a$c'' p))
     = Inr [\<lparr>cname = Some ''GND_Z$a$c'',
              lhs = [(1, LpVariable ''Z$a$c'' (Some 0) (Some 1) LpInteger),
                     (- 1, LpVariable ''TraumaCenter$c'' (Some 0) (Some 1) LpInteger)],
              csense = LE, rhs = 0\<rparr>,
            \<lparr>cname = Some ''AIR_Z$a$c'',
              lhs = [(1, LpVariable ''Z$a$c'' (Some 0) (Some 1) LpInteger),
                     (- 1, LpVariable ''AirDepot$a'' (Some 0) (Some 1) LpInteger)],
              csense = LE, rhs = 0\<rparr>]"
  by (simp add: create_traumah_model_def ex_traumah_def make_adtc_vars_def adtc_name_def
      ground_constraint_def air_constraint_def air_ground_constraint_def pairing_constraints_def
      list_index_def covered_var_def ground_var_def air_var_def constraints_named_def model_defs)

section \<open>Merge: facility types shared by two coverages\<close>

text \<open>
  Claim C2 asks that the merge fails whenever two coverages share a facility type name.
  Two coverages that both have the facility type \<open>F\<close>, one with the facility \<open>1\<close> and
  one with the facility \<open>2\<close>, are merged without an error, and the facilities of the
  second replace those of the first; the merge fails only when the facilities under the
  shared name are equal too.
\<close>

theorem merge_coverages_shared_facility_type:
  "merge_coverages [ex_shared_a, ex_shared_b] =
     Inr \<lparr>ctype = Some binary_type, facilities = [(''F'', [''2''])],
          demands = [(''d1'', \<lparr>demand = 10, serviceableDemand = Num 10,
                                coverage = [(''F'', [(''1'', 1)])]\<rparr>)],
          totalServiceableDemand = 10\<rparr>
   \<and> merge_coverages [ex_shared_a, ex_shared_a] = Inl (ValueError ''Conflicting facility types'')"
  by (simp add: ex_shared_a_def ex_shared_b_def binary_type_def merge_defs)

section \<open>Merge: serviceable demand of a covered demand unit\<close>

text \<open>
  Claim C3 asks that, for binary coverages, a demand unit that a merged coverage covers
  gets its serviceable demand from that coverage, and that the merge returns. The second
  coverage covers \<open>d1\<close> with strength 1 and has the serviceable demand 10 there. When the
  type is spelled \<open>Binary\<close>, the branch is taken and the merge raises \<^verbatim>\<open>KeyError\<close> for the
  key \<open>demand\<close>; when it is spelled \<open>binary\<close>, as the builders require, the branch is not
  taken and the merged serviceable demand is still that of the first coverage, 0.
\<close>

theorem merge_coverages_binary_covered_demand:
  "merge_coverages [ex_merge_a ''Binary'', ex_merge_b ''Binary''] = Inl (KeyError ''demand'')
   \<and> merge_coverages [ex_merge_a ''binary'', ex_merge_b ''binary''] =
       Inr \<lparr>ctype = Some binary_type, facilities = [(''A'', [''1'']), (''B'', [''2''])],
            demands = [(''d1'', \<lparr>demand = 10, serviceableDemand = Num 0,
                                  coverage = [(''A'', []), (''B'', [(''2'', 1)])]\<rparr>)],
            totalServiceableDemand = 0\<rparr>"
  by (simp add: ex_merge_a_def ex_merge_b_def binary_type_def merge_defs)

section \<open>Loops that may raise, and the facility variables\<close>

lemma emap_Inr_map: "(\<And>x. x \<in> set xs \<Longrightarrow> f x = Inr (g x)) \<Longrightarrow> emap f xs = Inr (map g xs)"
  by (induction xs) auto

lemma emap_Inl: "emap f xs = Inl e \<Longrightarrow> \<exists>x \<in> set xs. f x = Inl e"
  by (induction xs) (auto split: sum.splits)

lemma emap_Inr: "emap f xs = Inr ys \<Longrightarrow> list_all2 (\<lambda>x y. f x = Inr y) xs ys"
  by (induction xs arbitrary: ys) (auto split: sum.splits)

lemma emap_succeeds: "(\<And>x. x \<in> set xs \<Longrightarrow> \<exists>y. f x = Inr y) \<Longrightarrow> \<exists>ys. emap f xs = Inr ys"
proof (induction xs)
  case Nil
  show ?case by simp
next
  case (Cons x xs)
  from Cons.prems obtain y where "f x = Inr y" by auto
  moreover from Cons obtain ys where "emap f xs = Inr ys" by auto
  ultimately show ?case by simp
qed

lemma map_of_facility_ids:
  "map_of (map (\<lambda>facility_id. (facility_id, g facility_id)) ids) k =
     (if k \<in> set ids then Some (g k) else None)"
  by (induction ids) auto

lemma map_of_make_facility_vars:
  "map_of (make_facility_vars facs delineator up) facility_type =
     map_option (map (\<lambda>facility_id. (facility_id, facility_var delineator up facility_type facility_id)))
       (map_of facs facility_type)"
  by (induction facs) (auto simp: make_facility_vars_def facility_var_def)

lemma facility_var_at_make:
  "facility_var_at (make_facility_vars facs delineator up) facility_type facility_id =
     (case map_of facs facility_type of
        None \<Rightarrow> Inl (KeyError facility_type)
      | Some ids \<Rightarrow>
          if facility_id \<in> set ids then Inr (facility_var delineator up facility_type facility_id)
          else Inl (KeyError facility_id))"
  by (simp add: facility_var_at_def ebind_def getitem_def map_of_make_facility_vars
      map_of_facility_ids split: option.splits)

lemma covering_vars_Inr:
  assumes "covering_vars (make_facility_vars facs delineator up) r = Inr vs"
  shows "vs = map (\<lambda>(facility_type, facility_id, s). facility_var delineator up facility_type facility_id)
                  (coverage_pairs r)"
proof -
  from emap_Inr [OF assms [unfolded covering_vars_def]]
  have "list_all2 (\<lambda>x y. y = (case x of (facility_type, facility_id, s) \<Rightarrow>
            facility_var delineator up facility_type facility_id)) (coverage_pairs r) vs"
    by (rule list_all2_mono) (auto simp: facility_var_at_make split: option.splits if_splits)
  then show ?thesis
    by (induction rule: list_all2_induct) auto
qed

lemma covering_vars_refs_ok:
  assumes "list_all (\<lambda>(facility_type, facility_id, s).
           (case map_of facs facility_type of None \<Rightarrow> False | Some ids \<Rightarrow> facility_id \<in> set ids))
          (coverage_pairs r)"
  shows "covering_vars (make_facility_vars facs delineator up) r =
     Inr (map (\<lambda>(facility_type, facility_id, s). facility_var delineator up facility_type facility_id)
              (coverage_pairs r))"
  unfolding covering_vars_def
  using assms
  by (intro emap_Inr_map) (auto simp: facility_var_at_make list_all_iff split: option.splits)

lemma covering_terms_refs_ok:
  assumes "list_all (\<lambda>(facility_type, facility_id, s).
           (case map_of facs facility_type of None \<Rightarrow> False | Some ids \<Rightarrow> facility_id \<in> set ids))
          (coverage_pairs r)"
  shows "covering_terms (make_facility_vars facs delineator up) r =
     Inr (map (\<lambda>(facility_type, facility_id, s). (s, facility_var delineator up facility_type facility_id))
              (coverage_pairs r))"
  unfolding covering_terms_def
  using assms
  by (intro emap_Inr_map) (auto simp: facility_var_at_make list_all_iff ebind_def split: option.splits)

lemma covering_vars_Inl: "covering_vars fv r = Inl e \<Longrightarrow> \<exists>k. e = KeyError k"
  by (auto simp: covering_vars_def facility_var_at_def ebind_def getitem_def
      dest!: emap_Inl split: option.splits sum.splits)

lemma covering_terms_Inl: "covering_terms fv r = Inl e \<Longrightarrow> \<exists>k. e = KeyError k"
  by (auto simp: covering_terms_def facility_var_at_def ebind_def getitem_def
      dest!: emap_Inl split: option.splits sum.splits)

section \<open>Threshold models: the range check on \<open>psi\<close>\<close>

lemma threshold_constraints_Inl:
  "emap (threshold_constraint fv delineator) ds = Inl e \<Longrightarrow> \<exists>k. e = KeyError k"
  by (auto simp: threshold_constraint_def ebind_def dest!: emap_Inl covering_vars_Inl split: sum.splits)

lemma cc_threshold_constraints_Inl:
  "emap (cc_threshold_constraints fv delineator u) ds = Inl e \<Longrightarrow> \<exists>k. e = KeyError k"
  by (auto simp: cc_threshold_constraints_def ebind_def dest!: emap_Inl covering_terms_Inl split: sum.splits)

lemma scaled_terms_Inl: "emap (scaled_term u t delineator) ds = Inl e \<Longrightarrow> e = ZeroDivisionError"
  by (auto simp: scaled_term_def dest!: emap_Inl split: if_splits)

lemma cc_scaled_terms_Inl: "emap (cc_scaled_term t delineator) ds = Inl e \<Longrightarrow> e = ZeroDivisionError"
  by (auto simp: cc_scaled_term_def dest!: emap_Inl split: if_splits)

lemma create_threshold_model_out_of_range:
  "validate_coverage c [''coverage''] [''binary''] = Inr () \<Longrightarrow> psi < 0 \<or> psi > 100 \<Longrightarrow>
     create_threshold_model c psi delineator u = Inl psi_error"
  by (auto simp: create_threshold_model_def ebind_def)

lemma create_cc_threshold_model_out_of_range:
  "validate_coverage c [''coverage''] [''partial''] = Inr () \<Longrightarrow> psi < 0 \<or> psi > 100 \<Longrightarrow>
     create_cc_threshold_model c psi delineator u = Inl psi_error"
  by (auto simp: create_cc_threshold_model_def ebind_def)

lemma validate_coverage_not_psi_error: "validate_coverage c modes types \<noteq> Inl psi_error"
  by (simp add: validate_coverage_def psi_error_def split: option.splits)

lemma create_threshold_model_in_range:
  assumes "0 \<le> psi" "psi \<le> 100"
  shows "create_threshold_model c psi delineator u \<noteq> Inl psi_error"
proof
  assume a: "create_threshold_model c psi delineator u = Inl psi_error"
  show False
  proof (cases "validate_coverage c [''coverage''] [''binary'']")
    case (Inl e)
    with a have "e = psi_error" by (simp add: create_threshold_model_def ebind_def)
    with Inl validate_coverage_not_psi_error show False by blast
  next
    case (Inr x)
    with a assms show False
      by (auto simp: create_threshold_model_def ebind_def Let_def psi_error_def
          split: sum.splits dest: threshold_constraints_Inl scaled_terms_Inl)
  qed
qed

lemma create_cc_threshold_model_in_range:
  assumes "0 \<le> psi" "psi \<le> 100"
  shows "create_cc_threshold_model c psi delineator u \<noteq> Inl psi_error"
proof
  assume a: "create_cc_threshold_model c psi delineator u = Inl psi_error"
  show False
  proof (cases "validate_coverage c [''coverage''] [''partial'']")
    case (Inl e)
    with a have "e = psi_error" by (simp add: create_cc_threshold_model_def ebind_def)
    with Inl validate_coverage_not_psi_error show False by blast
  next
    case (Inr x)
    with a assms show False
      by (auto simp: create_cc_threshold_model_def ebind_def Let_def psi_error_def
          split: sum.splits dest: cc_threshold_constraints_Inl cc_scaled_terms_Inl)
  qed
qed

text \<open>
  Claim C9. For a coverage that passes validation, a \<open>psi\<close> below 0 or above 100 makes
  both threshold builders raise the range error, whatever the facilities and the demand
  units are: the check precedes the creation of the variables and of the constraints, so
  nothing that these steps could raise is raised first. For a \<open>psi\<close> from 0 to 100 neither
  builder raises the range error, on any coverage.
\<close>

theorem psi_range_check:
  assumes "validate_coverage c [''coverage''] [''binary''] = Inr ()"
      and "validate_coverage c' [''coverage''] [''partial''] = Inr ()"
  shows "(psi < 0 \<or> psi > 100 \<longrightarrow>
            create_threshold_model c psi delineator u = Inl psi_error
          \<and> create_cc_threshold_model c' psi delineator u = Inl psi_error)
       \<and> (0 \<le> psi \<and> psi \<le> 100 \<longrightarrow>
            create_threshold_model c psi delineator u \<noteq> Inl psi_error
          \<and> create_cc_threshold_model c' psi delineator u \<noteq> Inl psi_error)"
  using assms create_threshold_model_out_of_range [of c psi delineator u]
    create_cc_threshold_model_out_of_range [of c' psi delineator u]
    create_threshold_model_in_range [of psi c delineator u]
    create_cc_threshold_model_in_range [of psi c' delineator u]
  by blast

text \<open>The theorem at \<open>psi = 101\<close> and at \<open>psi = 50\<close>, on a binary and a partial coverage.\<close>

theorem psi_range_check_witness:
  "validate_coverage ex_threshold_store [''coverage''] [''binary''] = Inr ()
   \<and> validate_coverage ex_cc_threshold_store [''coverage''] [''partial''] = Inr ()
   \<and> create_threshold_model ex_threshold_store 101 ''$'' False = Inl psi_error
   \<and> create_cc_threshold_model ex_cc_threshold_store 101 ''$'' False = Inl psi_error
   \<and> create_threshold_model ex_threshold_store 50 ''$'' False \<noteq> Inl psi_error
   \<and> create_cc_threshold_model ex_cc_threshold_store 50 ''$'' False \<noteq> Inl psi_error"
proof -
  have h1: "validate_coverage ex_threshold_store [''coverage''] [''binary''] = Inr ()"
    by (simp add: validate_coverage_def ex_threshold_store_def binary_type_def)
  have h2: "validate_coverage ex_cc_threshold_store [''coverage''] [''partial''] = Inr ()"
    by (simp add: validate_coverage_def ex_cc_threshold_store_def partial_type_def)
  from psi_range_check [OF h1 h2, of 101 "''$''" False] psi_range_check [OF h1 h2, of 50 "''$''" False] h1 h2
  show ?thesis by simp
qed

section \<open>Threshold models: a total demand of zero\<close>

lemma threshold_constraints_refs_ok:
  "refs_ok c \<Longrightarrow>
     \<exists>cs. emap (threshold_constraint (make_facility_vars (facilities c) delineator up) delineator)
             (demands c) = Inr cs"
  by (rule emap_succeeds)
     (auto simp: refs_ok_def list_all_iff threshold_constraint_def ebind_def covering_vars_refs_ok)

lemma cc_threshold_constraints_refs_ok:
  "refs_ok c \<Longrightarrow>
     \<exists>cs. emap (cc_threshold_constraints (make_facility_vars (facilities c) delineator up) delineator u)
             (demands c) = Inr cs"
  by (rule emap_succeeds)
     (auto simp: refs_ok_def list_all_iff cc_threshold_constraints_def ebind_def covering_terms_refs_ok)

lemma scaled_terms_zero: "ds \<noteq> [] \<Longrightarrow> emap (scaled_term u 0 delineator) ds = Inl ZeroDivisionError"
  by (cases ds) (simp_all add: scaled_term_def)

lemma cc_scaled_terms_zero: "ds \<noteq> [] \<Longrightarrow> emap (cc_scaled_term 0 delineator) ds = Inl ZeroDivisionError"
  by (cases ds) (simp_all add: cc_scaled_term_def)

lemma create_threshold_model_zero_demand:
  assumes "validate_coverage c [''coverage''] [''binary''] = Inr ()" "0 \<le> psi" "psi \<le> 100"
    "refs_ok c" "demands c \<noteq> []" "sum_demand u (demands c) = 0"
  shows "create_threshold_model c psi delineator u = Inl ZeroDivisionError"
proof -
  from threshold_constraints_refs_ok [OF \<open>refs_ok c\<close>, of delineator "Some 1"]
  obtain cs where "emap (threshold_constraint (make_facility_vars (facilities c) delineator (Some 1)) delineator)
             (demands c) = Inr cs" by blast
  with assms scaled_terms_zero [OF \<open>demands c \<noteq> []\<close>, of u delineator] show ?thesis
    by (simp add: create_threshold_model_def ebind_def)
qed

lemma create_cc_threshold_model_zero_demand:
  assumes "validate_coverage c [''coverage''] [''partial''] = Inr ()" "0 \<le> psi" "psi \<le> 100"
    "refs_ok c" "demands c \<noteq> []" "sum_demand u (demands c) = 0"
  shows "create_cc_threshold_model c psi delineator u = Inl ZeroDivisionError"
proof -
  from cc_threshold_constraints_refs_ok [OF \<open>refs_ok c\<close>, of delineator "Some 1" u]
  obtain cs where "emap (cc_threshold_constraints (make_facility_vars (facilities c) delineator (Some 1)) delineator u)
             (demands c) = Inr cs" by blast
  with assms cc_scaled_terms_zero [OF \<open>demands c \<noteq> []\<close>, of delineator] show ?thesis
    by (simp add: create_cc_threshold_model_def ebind_def)
qed

text \<open>
  Claim C10, as the code has it. On a valid coverage that has at least one demand unit and
  whose chosen demand weights add up to zero, both threshold builders raise
  \<^verbatim>\<open>ZeroDivisionError\<close>. The coverage passes validation, its references resolve, and
  \<open>psi\<close> is in range, so that no earlier step raises.
\<close>

theorem threshold_models_zero_total_demand:
  assumes "validate_coverage c [''coverage''] [''binary''] = Inr ()"
      and "refs_ok c" and "demands c \<noteq> []" and "sum_demand u (demands c) = 0"
      and "validate_coverage c' [''coverage''] [''partial''] = Inr ()"
      and "refs_ok c'" and "demands c' \<noteq> []" and "sum_demand u (demands c') = 0"
      and "0 \<le> psi" and "psi \<le> 100"
  shows "create_threshold_model c psi delineator u = Inl ZeroDivisionError
       \<and> create_cc_threshold_model c' psi delineator u = Inl ZeroDivisionError"
  using assms by (simp add: create_threshold_model_zero_demand create_cc_threshold_model_zero_demand)

text \<open>The theorem on a binary and a partial coverage whose serviceable demands are all 0.\<close>

theorem threshold_models_zero_total_demand_witness:
  "validate_coverage ex_threshold_store [''coverage''] [''binary''] = Inr ()
   \<and> refs_ok ex_threshold_store \<and> demands ex_threshold_store \<noteq> []
   \<and> sum_demand True (demands ex_threshold_store) = 0
   \<and> validate_coverage ex_cc_threshold_store [''coverage''] [''partial''] = Inr ()
   \<and> refs_ok ex_cc_threshold_store \<and> demands ex_cc_threshold_store \<noteq> []
   \<and> sum_demand True (demands ex_cc_threshold_store) = 0
   \<and> create_threshold_model ex_threshold_store 50 ''$'' True = Inl ZeroDivisionError
   \<and> create_cc_threshold_model ex_cc_threshold_store 50 ''$'' True = Inl ZeroDivisionError"
proof -
  have h1: "validate_coverage ex_threshold_store [''coverage''] [''binary''] = Inr ()"
    by (simp add: validate_coverage_def ex_threshold_store_def binary_type_def)
  have h2: "refs_ok ex_threshold_store"
    by (simp add: refs_ok_def coverage_pairs_def ex_threshold_store_def)
  have h3: "demands ex_threshold_store \<noteq> []"
    by (simp add: ex_threshold_store_def)
  have h4: "sum_demand True (demands ex_threshold_store) = 0"
    by (simp add: sum_demand_def demand_weight_def ex_threshold_store_def)
  have h5: "validate_coverage ex_cc_threshold_store [''coverage''] [''partial''] = Inr ()"
    by (simp add: validate_coverage_def ex_cc_threshold_store_def partial_type_def)
  have h6: "refs_ok ex_cc_threshold_store"
    by (simp add: refs_ok_def coverage_pairs_def ex_cc_threshold_store_def)
  have h7: "demands ex_cc_threshold_store \<noteq> []"
    by (simp add: ex_cc_threshold_store_def)
  have h8: "sum_demand True (demands ex_cc_threshold_store) = 0"
    by (simp add: sum_demand_def demand_weight_def ex_cc_threshold_store_def)
  have h9: "(0::rat) \<le> 50" "(50::rat) \<le> 100" by simp_all
  from threshold_models_zero_total_demand [OF h1 h2 h3 h4 h5 h6 h7 h8 h9, of "''$''"]
    h1 h2 h3 h4 h5 h6 h7 h8
  show ?thesis by simp
qed

text \<open>
  Claim C10 as stated fails on a coverage without demand units: the weights add up to
  zero, the scaling loop has no iteration, nothing is divided, and both builders return a
  problem whose threshold constraint has an empty left-hand side.
\<close>

theorem threshold_models_no_demand_counterexample:
  "sum_demand False (demands (ex_no_demand binary_type)) = 0
   \<and> create_threshold_model (ex_no_demand binary_type) 50 ''$'' False =
       Inr \<lparr>pname = ''ThresholdModel'', psense = LpMinimize,
            objective = [(1, LpVariable ''F$1'' (Some 0) (Some 1) LpInteger)],
            constraints = [\<lparr>cname = None, lhs = [], csense = GE, rhs = 50\<rparr>]\<rparr>
   \<and> sum_demand False (demands (ex_no_demand partial_type)) = 0
   \<and> create_cc_threshold_model (ex_no_demand partial_type) 50 ''$'' False =
       Inr \<lparr>pname = ''ThresholdModel'', psense = LpMinimize,
            objective = [(1, LpVariable ''F$1'' (Some 0) (Some 1) LpInteger)],
            constraints = [\<lparr>cname = Some ''Threshold'', lhs = [], csense = GE, rhs = 50\<rparr>]\<rparr>"
  by (simp add: create_threshold_model_def create_cc_threshold_model_def sum_demand_def
      ex_no_demand_def binary_type_def partial_type_def model_defs)

section \<open>LSCP: a demand unit that no facility covers\<close>

lemma refs_okD:
  assumes "refs_ok c" "e \<in> set (demands c)"
  shows "list_all (\<lambda>(facility_type, facility_id, s).
           (case map_of (facilities c) facility_type of None \<Rightarrow> False | Some ids \<Rightarrow> facility_id \<in> set ids))
          (coverage_pairs (snd e))"
proof -
  obtain d r where "e = (d, r)" by (cases e)
  with assms show ?thesis
    by (fastforce simp: refs_ok_def list_all_iff)
qed

lemma lscp_constraint_refs_ok:
  assumes "refs_ok c" "e \<in> set (demands c)"
  shows "lscp_constraint (make_facility_vars (facilities c) delineator (Some 1)) delineator e
           = Inr (lscp_row delineator e)"
proof -
  from covering_vars_refs_ok [OF refs_okD [OF assms], of delineator "Some 1"] show ?thesis
    by (simp add: lscp_constraint_def lscp_row_def dummy_row_def ebind_def lpSum_def)
qed

lemma create_lscp_model_refs_ok:
  assumes "validate_coverage c [''coverage''] [''binary''] = Inr ()" "refs_ok c"
  shows "create_lscp_model c delineator =
     Inr \<lparr>pname = ''LSCP'', psense = LpMinimize,
          objective = lpSum (all_facility_vars (make_facility_vars (facilities c) delineator (Some 1))),
          constraints = map (lscp_row delineator) (demands c)\<rparr>"
proof -
  have "emap (lscp_constraint (make_facility_vars (facilities c) delineator (Some 1)) delineator) (demands c)
      = Inr (map (lscp_row delineator) (demands c))"
    by (rule emap_Inr_map) (rule lscp_constraint_refs_ok [OF assms(2)])
  with assms(1) show ?thesis
    by (simp add: create_lscp_model_def ebind_def)
qed

text \<open>
  Claim C8. On a binary coverage that passes validation and whose references resolve, the
  LSCP builder returns a problem; for a demand unit with no covering facility the problem
  contains the row \<open>dummy_row\<close>, whose left-hand side is the placeholder variable
  with both bounds 0 and which is compared \<open>\<ge> 1\<close>; and the problem has one coverage row
  per demand unit, named after it, so that no row is left out.
\<close>

theorem create_lscp_model_empty_coverage:
  assumes "validate_coverage c [''coverage''] [''binary''] = Inr ()"
      and "refs_ok c"
      and "(d, r) \<in> set (demands c)"
      and "coverage_pairs r = []"
  shows "\<exists>p. create_lscp_model c delineator = Inr p
           \<and> dummy_row delineator d \<in> set (constraints p)
           \<and> map cname (constraints p) = map (\<lambda>e. Some (''D'' @ fst e)) (demands c)"
proof -
  from assms(3,4) have "lscp_row delineator (d, r) = dummy_row delineator d"
    by (simp add: lscp_row_def)
  with assms(3) have "dummy_row delineator d \<in> set (map (lscp_row delineator) (demands c))"
    by force
  moreover have "map cname (map (lscp_row delineator) (demands c)) = map (\<lambda>e. Some (''D'' @ fst e)) (demands c)"
    by (simp add: lscp_row_def dummy_row_def)
  ultimately show ?thesis
    using create_lscp_model_refs_ok [OF assms(1,2), of delineator] by simp
qed

text \<open>The theorem on a coverage whose demand unit \<open>d2\<close> has an empty coverage.\<close>

theorem create_lscp_model_empty_coverage_witness:
  "validate_coverage ex_lscp_store [''coverage''] [''binary''] = Inr ()
   \<and> refs_ok ex_lscp_store
   \<and> (''d2'', \<lparr>demand = 20, serviceableDemand = 0, coverage = [(''F'', [])]\<rparr>) \<in> set (demands ex_lscp_store)
   \<and> coverage_pairs \<lparr>demand = 20, serviceableDemand = 0::rat, coverage = [(''F'', [])]\<rparr> = []
   \<and> (\<exists>p. create_lscp_model ex_lscp_store ''$'' = Inr p
         \<and> \<lparr>cname = Some ''Dd2'',
             lhs = [(1, \<lparr>vname = ''__dummy$d2'', lowBound = Some 0, upBound = Some 0, cat = LpInteger\<rparr>)],
             csense = GE, rhs = 1\<rparr> \<in> set (constraints p)
         \<and> map cname (constraints p) = [Some ''Dd1'', Some ''Dd2''])"
proof -
  have h1: "validate_coverage ex_lscp_store [''coverage''] [''binary''] = Inr ()"
    by (simp add: validate_coverage_def ex_lscp_store_def binary_type_def)
  have h2: "refs_ok ex_lscp_store"
    by (simp add: refs_ok_def coverage_pairs_def ex_lscp_store_def)
  have h3: "(''d2'', \<lparr>demand = 20, serviceableDemand = 0, coverage = [(''F'', [])]\<rparr>) \<in> set (demands ex_lscp_store)"
    by (simp add: ex_lscp_store_def)
  have h4: "coverage_pairs \<lparr>demand = 20, serviceableDemand = 0::rat, coverage = [(''F'', [])]\<rparr> = []"
    by (simp add: coverage_pairs_def)
  from create_lscp_model_empty_coverage [OF h1 h2 h3 h4, of "''$''"] h1 h2 h3 h4
  show ?thesis
    by (simp add: dummy_row_def LpVariable_def ex_lscp_store_def)
qed

section \<open>Backup coverage: the linking constraint\<close>

lemma eval_expr_append: "eval_expr a (xs @ ys) = eval_expr a xs + eval_expr a ys"
  by (simp add: eval_expr_def)

lemma eval_expr_minus: "eval_expr a (minus_expr xs ys) = eval_expr a xs - eval_expr a ys"
proof -
  have "eval_expr a (map (\<lambda>(c, v). (- c, v)) ys) = - eval_expr a ys"
    by (induction ys) (auto simp: eval_expr_def)
  then show ?thesis
    by (simp add: minus_expr_def eval_expr_append)
qed

lemma emap_Inr_member:
  assumes "emap f xs = Inr ys" "x \<in> set xs"
  shows "\<exists>y \<in> set ys. f x = Inr y"
  using emap_Inr [OF assms(1)] assms(2)
  by (induction rule: list_all2_induct) auto

lemma backup_constraint_Inr:
  assumes "backup_constraint (make_facility_vars facs delineator None) delineator (d, r) = Inr row"
  shows "row = backup_row delineator d r"
proof -
  from assms obtain vs where vs: "covering_vars (make_facility_vars facs delineator None) r = Inr vs"
    and row: "row = \<lparr>cname = Some (''D'' @ d), lhs = minus_expr (lpSum vs) [(1, backup_var delineator d)],
                     csense = GE, rhs = 1\<rparr>"
    by (auto simp: backup_constraint_def ebind_def split: sum.splits)
  from covering_vars_Inr [OF vs] row show ?thesis
    by (simp add: backup_row_def covering_facility_vars_def)
qed

lemma create_backup_model_row:
  assumes "create_backup_model c num_fac delineator u = Inr p" "(d, r) \<in> set (demands c)"
  shows "backup_row delineator d r \<in> set (constraints p)"
proof -
  from assms(1) obtain cs ns where
    cs: "emap (backup_constraint (make_facility_vars (facilities c) delineator None) delineator) (demands c) = Inr cs"
    and p: "constraints p = cs @ ns"
    by (auto simp: create_backup_model_def ebind_def Let_def split: sum.splits)
  from emap_Inr_member [OF cs assms(2)] obtain row where "row \<in> set cs"
    "backup_constraint (make_facility_vars (facilities c) delineator None) delineator (d, r) = Inr row"
    by blast
  with backup_constraint_Inr [of "facilities c" delineator d r row] p show ?thesis
    by simp
qed

lemma backup_row_forces_zero:
  assumes "satisfies a (backup_row delineator d r)"
      and "within_bounds a (backup_var delineator d)"
      and "eval_expr a (lpSum (covering_facility_vars delineator r)) \<le> 1"
  shows "a (backup_var delineator d) = 0"
proof -
  from assms(1) have "eval_expr a (lpSum (covering_facility_vars delineator r)) - a (backup_var delineator d) \<ge> 1"
    by (simp add: satisfies_def backup_row_def eval_expr_minus) (simp add: eval_expr_def)
  moreover from assms(2) have "0 \<le> a (backup_var delineator d)"
    by (simp add: within_bounds_def backup_var_def LpVariable_def)
  ultimately show ?thesis using assms(3) by linarith
qed

lemma eval_expr_lpSum: "eval_expr a (lpSum vs) = sum_list (map a vs)"
  by (induction vs) (simp_all add: eval_expr_def lpSum_def)

lemma sum_le_sited:
  "list_all (\<lambda>v. a v \<le> 1) vs \<Longrightarrow> sum_list (map a vs) \<le> of_nat (length (sited a vs))"
proof (induction vs)
  case Nil
  show ?case by (simp add: sited_def)
next
  case (Cons v vs)
  then have le: "a v \<le> 1" and ih: "sum_list (map a vs) \<le> of_nat (length (sited a vs))"
    by simp_all
  show ?case
  proof (cases "a v = 0")
    case True
    with ih show ?thesis by (simp add: sited_def)
  next
    case False
    with le ih show ?thesis by (simp add: sited_def)
  qed
qed

lemma at_most_one_sited_once:
  assumes "list_all (\<lambda>v. a v \<le> 1) vs" "length (sited a vs) \<le> 1"
  shows "eval_expr a (lpSum vs) \<le> 1"
proof -
  from assms(2) have "(of_nat (length (sited a vs)) :: rat) \<le> 1"
    by (metis of_nat_1 of_nat_le_iff)
  with sum_le_sited [OF assms(1)] show ?thesis
    by (simp add: eval_expr_lpSum)
qed

lemma create_backup_model_objective:
  assumes "create_backup_model c num_fac delineator u = Inr p" "(d, r) \<in> set (demands c)"
  shows "(demand_weight u r, backup_var delineator d) \<in> set (objective p)"
proof -
  from assms(1) have "objective p = map (\<lambda>(demand_id, r).
        (demand_weight u r, backup_var delineator demand_id)) (demands c)"
    by (auto simp: create_backup_model_def ebind_def Let_def split: sum.splits)
  with assms(2) show ?thesis by force
qed

text \<open>
  Claim C7, as the code has it. Every problem that the backup builder returns contains,
  for every demand unit \<open>d\<close>, the row \<open>backup_row\<close>: the sum of the sited-indicators of
  the facilities covering \<open>d\<close>, minus the backup indicator of \<open>d\<close>, is at least 1. The
  backup indicator is the integer variable \<open>U\<close> of \<open>d\<close> with the bounds 0 and 1, the one
  that carries the demand weight of \<open>d\<close> in the objective. The sited-indicators are integer
  counts without an upper bound. In every feasible assignment where these counts add up
  to at most 1 for the facilities covering \<open>d\<close>, the backup indicator of \<open>d\<close> is 0; in
  particular where at most one covering facility of \<open>d\<close> is sited and none is sited more
  than once.
\<close>

theorem create_backup_model_linking_constraint:
  assumes "create_backup_model c num_fac delineator u = Inr p"
      and "(d, r) \<in> set (demands c)"
  shows "backup_row delineator d r \<in> set (constraints p)
       \<and> (\<forall>a. feasible a p \<and> eval_expr a (lpSum (covering_facility_vars delineator r)) \<le> 1
              \<longrightarrow> a (backup_var delineator d) = 0)
       \<and> (\<forall>a. feasible a p \<and> list_all (\<lambda>v. a v \<le> 1) (covering_facility_vars delineator r)
                \<and> length (sited a (covering_facility_vars delineator r)) \<le> 1
              \<longrightarrow> a (backup_var delineator d) = 0)
       \<and> backup_var delineator d =
           \<lparr>vname = ''U'' @ delineator @ d, lowBound = Some 0, upBound = Some 1, cat = LpInteger\<rparr>
       \<and> (demand_weight u r, backup_var delineator d) \<in> set (objective p)"
proof -
  have row: "backup_row delineator d r \<in> set (constraints p)"
    by (rule create_backup_model_row [OF assms])
  have z: "a (backup_var delineator d) = 0"
    if f: "feasible a p" and le: "eval_expr a (lpSum (covering_facility_vars delineator r)) \<le> 1" for a
  proof -
    from f row have s: "satisfies a (backup_row delineator d r)"
      by (simp add: feasible_def list_all_iff)
    from row have "backup_var delineator d \<in> set (variables p)"
      by (force simp: variables_def backup_row_def minus_expr_def)
    with f have "within_bounds a (backup_var delineator d)"
      by (simp add: feasible_def list_all_iff)
    from backup_row_forces_zero [OF s this le] show ?thesis .
  qed
  have z2: "a (backup_var delineator d) = 0"
    if "feasible a p" and "list_all (\<lambda>v. a v \<le> 1) (covering_facility_vars delineator r)"
      and "length (sited a (covering_facility_vars delineator r)) \<le> 1" for a
    using z [OF that(1) at_most_one_sited_once [OF that(2,3)]] .
  have v: "backup_var delineator d =
           \<lparr>vname = ''U'' @ delineator @ d, lowBound = Some 0, upBound = Some 1, cat = LpInteger\<rparr>"
    by (simp add: backup_var_def LpVariable_def)
  from row z z2 v create_backup_model_objective [OF assms] show ?thesis by blast
qed

text \<open>
  The theorem on a coverage with two facilities, for the demand unit \<open>d2\<close> that facility
  2 covers, and the assignment that sites facility 2 once.
\<close>

theorem create_backup_model_linking_constraint_witness:
  "\<exists>p. create_backup_model ex_backup_store [(''total'', 2)] ''$'' False = Inr p
     \<and> (''d2'', \<lparr>demand = 20, serviceableDemand = 20, coverage = [(''F'', [(''2'', 1)])]\<rparr>)
          \<in> set (demands ex_backup_store)
     \<and> \<lparr>cname = Some ''Dd2'',
         lhs = [(1, facility_var ''$'' None ''F'' ''2''), (- 1, backup_var ''$'' ''d2'')],
         csense = GE, rhs = 1\<rparr> \<in> set (constraints p)
     \<and> feasible ex_sited_once p
     \<and> eval_expr ex_sited_once [(1, facility_var ''$'' None ''F'' ''2'')] \<le> 1
     \<and> list_all (\<lambda>v. ex_sited_once v \<le> 1) [facility_var ''$'' None ''F'' ''2'']
     \<and> length (sited ex_sited_once [facility_var ''$'' None ''F'' ''2'']) = 1
     \<and> ex_sited_once (backup_var ''$'' ''d2'') = 0
     \<and> (20, backup_var ''$'' ''d2'') \<in> set (objective p)"
proof -
  obtain p where p: "create_backup_model ex_backup_store [(''total'', 2)] ''$'' False = Inr p"
    by (simp add: create_backup_model_def backup_constraint_def ex_backup_store_def binary_type_def model_defs)
  have d: "(''d2'', \<lparr>demand = 20, serviceableDemand = 20, coverage = [(''F'', [(''2'', 1)])]\<rparr>)
          \<in> set (demands ex_backup_store)"
    by (simp add: ex_backup_store_def)
  have f: "feasible ex_sited_once p"
    using p
    by (auto simp: create_backup_model_def backup_constraint_def ex_backup_store_def binary_type_def
        model_defs feasible_def variables_def satisfies_def within_bounds_def eval_expr_def
        ex_sited_once_def backup_var_def)
  have e: "eval_expr ex_sited_once
             (lpSum (covering_facility_vars ''$'' \<lparr>demand = 20, serviceableDemand = 20::rat, coverage = [(''F'', [(''2'', 1)])]\<rparr>)) \<le> 1"
    by (simp add: eval_expr_def lpSum_def covering_facility_vars_def coverage_pairs_def
        facility_var_def LpVariable_def ex_sited_once_def)
  have s: "list_all (\<lambda>v. ex_sited_once v \<le> 1) [facility_var ''$'' None ''F'' ''2'']"
    "length (sited ex_sited_once [facility_var ''$'' None ''F'' ''2'']) = 1"
    by (simp_all add: sited_def facility_var_def LpVariable_def ex_sited_once_def)
  from create_backup_model_linking_constraint [OF p d] f e s p d show ?thesis
    by (auto simp: backup_row_def covering_facility_vars_def coverage_pairs_def lpSum_def minus_expr_def
        eval_expr_def facility_var_def LpVariable_def ex_sited_once_def demand_weight_def)
qed

text \<open>
  Claim C7 as stated fails on the same coverage: the sited-indicator of a facility has no
  upper bound, and siting facility 2 with the count 2 is feasible with the backup
  indicator of \<open>d2\<close> at 1, although facility 2 is the only facility that covers \<open>d2\<close>,
  so that at most one covering facility of \<open>d2\<close> is sited.
\<close>

theorem create_backup_model_site_counted_twice_counterexample:
  "ebind (create_backup_model ex_backup_store [(''total'', 2)] ''$'' False)
         (\<lambda>p. Inr (feasible ex_sited_twice p)) = Inr True
   \<and> (''d2'', \<lparr>demand = 20, serviceableDemand = 20, coverage = [(''F'', [(''2'', 1)])]\<rparr>)
        \<in> set (demands ex_backup_store)
   \<and> map (\<lambda>v. (vname v, ex_sited_twice v))
         (covering_facility_vars ''$'' \<lparr>demand = 20, serviceableDemand = 20::rat, coverage = [(''F'', [(''2'', 1)])]\<rparr>)
       = [(''F$2'', 2)]
   \<and> length (sited ex_sited_twice
         (covering_facility_vars ''$'' \<lparr>demand = 20, serviceableDemand = 20::rat, coverage = [(''F'', [(''2'', 1)])]\<rparr>))
       = 1
   \<and> ex_sited_twice (backup_var ''$'' ''d2'') = 1"
  by (simp add: create_backup_model_def backup_constraint_def ex_backup_store_def binary_type_def
      model_defs feasible_def variables_def satisfies_def within_bounds_def eval_expr_def sited_def
      ex_sited_twice_def backup_var_def covering_facility_vars_def facility_var_def)

section \<open>Merge: the order of the coverages\<close>

lemma map_of_fold_update:
  "distinct (map fst xs) \<Longrightarrow>
     map_of (fold (\<lambda>kv. AList.update (fst kv) (snd kv)) xs m0) = map_of m0 ++ map_of xs"
proof (induction xs arbitrary: m0)
  case Nil
  show ?case by simp
next
  case (Cons kv xs)
  obtain k v where kv: "kv = (k, v)" by (cases kv)
  from Cons.prems kv have n: "map_of xs k = None" and d: "distinct (map fst xs)"
    by (simp_all add: map_of_eq_None_iff)
  have "map_of (fold (\<lambda>kv. AList.update (fst kv) (snd kv)) (kv # xs) m0)
      = map_of (AList.update k v m0) ++ map_of xs"
    using Cons.IH [OF d, of "AList.update k v m0"] kv by simp
  also have "\<dots> = (map_of m0)(k \<mapsto> v) ++ map_of xs"
    by (simp add: update_conv')
  also from n have "\<dots> = map_of m0 ++ (map_of xs)(k \<mapsto> v)"
    by (auto simp: map_add_def fun_eq_iff split: option.splits)
  also from kv have "\<dots> = map_of m0 ++ map_of (kv # xs)"
    by simp
  finally show ?case .
qed

lemma merge_fac_fold:
  "efold (merge_fac binary crec) xs st = Inr st' \<Longrightarrow>
     fst st' = fold (\<lambda>kv. AList.update (fst kv) (snd kv)) xs (fst st)"
proof (induction xs arbitrary: st)
  case Nil
  then show ?case by simp
next
  case (Cons kv xs)
  from Cons.prems obtain st1 where s: "merge_fac binary crec kv st = Inr st1"
    and r: "efold (merge_fac binary crec) xs st1 = Inr st'"
    by (auto split: sum.splits)
  from s have "fst st1 = AList.update (fst kv) (snd kv) (fst st)"
    by (auto simp: merge_fac_def ebind_def split: if_splits sum.splits)
  with Cons.IH [OF r] show ?case by simp
qed

lemma merge_type_cov_map:
  assumes "merge_type binary crec tm mrec = Inr mrec'" "distinct (map fst (snd tm))"
  shows "cov_map mrec' = cm_step tm (cov_map mrec) \<and> demand mrec' = demand mrec"
proof -
  define cov0 where "cov0 = (if fst tm \<notin> fst ` set (coverage mrec)
                  then AList.update (fst tm) [] (coverage mrec) else coverage mrec)"
  define m0 where "m0 = (case map_of cov0 (fst tm) of None \<Rightarrow> [] | Some m \<Rightarrow> m)"
  from assms(1) obtain st where st: "efold (merge_fac binary crec) (snd tm) (m0, serviceableDemand mrec) = Inr st"
    and mrec': "mrec' = mrec\<lparr>coverage := AList.update (fst tm) (fst st) cov0, serviceableDemand := snd st\<rparr>"
    by (auto simp: merge_type_def ebind_def Let_def cov0_def m0_def split: sum.splits)
  from merge_fac_fold [OF st] map_of_fold_update [OF assms(2), of m0]
  have m: "map_of (fst st) = map_of m0 ++ map_of (snd tm)" by simp
  have m0: "map_of m0 = (case cov_map mrec (fst tm) of None \<Rightarrow> Map.empty | Some m \<Rightarrow> m)"
  proof (cases "map_of (coverage mrec) (fst tm)")
    case None
    then have "fst tm \<notin> fst ` set (coverage mrec)"
      by (simp add: map_of_eq_None_iff)
    with None show ?thesis
      by (simp add: m0_def cov0_def cov_map_def update_conv')
  next
    case (Some m)
    then have "fst tm \<in> fst ` set (coverage mrec)"
      by (metis map_of_eq_None_iff option.distinct(1))
    with Some show ?thesis
      by (simp add: m0_def cov0_def cov_map_def)
  qed
  have "map_option map_of (map_of cov0 ft) = cov_map mrec ft" if "ft \<noteq> fst tm" for ft
    using that by (simp add: cov0_def cov_map_def update_conv')
  with m m0 mrec' show ?thesis
    by (auto simp: cov_map_def cm_step_def update_conv' fun_eq_iff)
qed

lemma merge_demand_steps:
  assumes "efold (\<lambda>tm md'. ebind (getitem md' d) (\<lambda>mrec.
                   ebind (merge_type binary crec tm mrec) (\<lambda>mrec'. Inr (AList.update d mrec' md'))))
             cov md = Inr md1"
      and "\<forall>tm \<in> set cov. distinct (map fst (snd tm))"
  shows "(\<forall>d'. d' \<noteq> d \<longrightarrow> map_of md1 d' = map_of md d')
       \<and> map_option cov_map (map_of md1 d) = map_option (fold cm_step cov) (map_option cov_map (map_of md d))"
  using assms
proof (induction cov arbitrary: md)
  case Nil
  then show ?case by (simp add: option.map_ident)
next
  case (Cons tm cov)
  from Cons.prems(1) obtain mrec mrec' where g: "map_of md d = Some mrec"
    and t: "merge_type binary crec tm mrec = Inr mrec'"
    and r: "efold (\<lambda>tm md'. ebind (getitem md' d) (\<lambda>mrec.
                   ebind (merge_type binary crec tm mrec) (\<lambda>mrec'. Inr (AList.update d mrec' md'))))
             cov (AList.update d mrec' md) = Inr md1"
    by (auto simp: ebind_def getitem_def split: sum.splits option.splits)
  from Cons.prems(2) have dt: "distinct (map fst (snd tm))" and dc: "\<forall>tm \<in> set cov. distinct (map fst (snd tm))"
    by simp_all
  from merge_type_cov_map [OF t dt] have c: "cov_map mrec' = cm_step tm (cov_map mrec)" by simp
  from Cons.IH [OF r dc] g c show ?case
    by (simp add: update_conv')
qed

lemma merge_demand_cov_map:
  assumes "merge_demand binary (d, crec) md = Inr md1"
      and "\<forall>tm \<in> set (coverage crec). distinct (map fst (snd tm))"
  shows "(\<forall>d'. d' \<noteq> d \<longrightarrow> map_of md1 d' = map_of md d')
       \<and> map_option cov_map (map_of md1 d)
           = map_option (fold cm_step (coverage crec)) (map_option cov_map (map_of md d))"
  using merge_demand_steps [of d binary crec "coverage crec" md md1] assms
  by (simp add: merge_demand_def)

lemma merge_demands_cov_map:
  assumes "efold (merge_demand binary) ds md = Inr md1"
      and "distinct (map fst ds)"
      and "\<forall>e \<in> set ds. \<forall>tm \<in> set (coverage (snd e)). distinct (map fst (snd tm))"
  shows "map_option cov_map (map_of md1 d) =
           (case map_of ds d of
              None \<Rightarrow> map_option cov_map (map_of md d)
            | Some crec \<Rightarrow> map_option (fold cm_step (coverage crec)) (map_option cov_map (map_of md d)))"
  using assms
proof (induction ds arbitrary: md)
  case Nil
  then show ?case by simp
next
  case (Cons e ds)
  obtain d0 r0 where e: "e = (d0, r0)" by (cases e)
  from Cons.prems(1) e obtain md0 where s: "merge_demand binary (d0, r0) md = Inr md0"
    and r: "efold (merge_demand binary) ds md0 = Inr md1"
    by (auto split: sum.splits)
  from Cons.prems(2) e have n: "map_of ds d0 = None" and dd: "distinct (map fst ds)"
    by (simp_all add: map_of_eq_None_iff)
  from Cons.prems(3) e have w0: "\<forall>tm \<in> set (coverage r0). distinct (map fst (snd tm))"
    and w: "\<forall>e \<in> set ds. \<forall>tm \<in> set (coverage (snd e)). distinct (map fst (snd tm))"
    by simp_all
  note step = merge_demand_cov_map [OF s w0]
  note ih = Cons.IH [OF r dd w]
  show ?case
  proof (cases "d = d0")
    case True
    with ih n step e show ?thesis by simp
  next
    case False
    with step have "map_of md0 d = map_of md d" by simp
    with ih False e show ?thesis by (simp cong: option.case_cong)
  qed
qed

lemma fold_cm_step_fresh:
  assumes "distinct (map fst cov)" "\<forall>ft \<in> fst ` set cov. cm ft = None"
  shows "fold cm_step cov cm = cm ++ (\<lambda>ft. map_option map_of (map_of cov ft))"
  using assms
proof (induction cov arbitrary: cm)
  case Nil
  show ?case by (simp add: map_add_def)
next
  case (Cons tm cov)
  obtain ft0 inner0 where tm: "tm = (ft0, inner0)" by (cases tm)
  from Cons.prems tm have n: "map_of cov ft0 = None" and d: "distinct (map fst cov)"
    and c0: "cm ft0 = None" and c: "\<forall>ft \<in> fst ` set cov. cm ft = None"
    by (simp_all add: map_of_eq_None_iff)
  have s: "cm_step tm cm = cm(ft0 \<mapsto> map_of inner0)"
    using tm c0 by (simp add: cm_step_def)
  from c n have f: "\<forall>ft \<in> fst ` set cov. (cm(ft0 \<mapsto> map_of inner0)) ft = None"
    by (auto simp: map_of_eq_None_iff)
  have "fold cm_step (tm # cov) cm = fold cm_step cov (cm_step tm cm)"
    by simp
  also have "\<dots> = fold cm_step cov (cm(ft0 \<mapsto> map_of inner0))"
    by (simp only: s)
  also have "\<dots> = cm(ft0 \<mapsto> map_of inner0) ++ (\<lambda>ft. map_option map_of (map_of cov ft))"
    by (rule Cons.IH [OF d f])
  also from n tm have "\<dots> = cm ++ (\<lambda>ft. map_option map_of (map_of (tm # cov) ft))"
    by (auto simp: map_add_def fun_eq_iff split: option.splits)
  finally show ?case .
qed

lemma merge_checks_demand_keys:
  "merge_checks cs fts dks cty = Inr (dks', cty') \<Longrightarrow>
     dks' = dks @ map (\<lambda>c. set (map fst (demands c))) cs"
proof (induction cs arbitrary: fts dks cty)
  case Nil
  then show ?case by simp
next
  case (Cons c cs)
  from Cons.prems obtain ty fts' where
    "merge_checks cs fts' (dks @ [set (map fst (demands c))]) (Some ty) = Inr (dks', cty')"
    by (auto simp: ebind_def split: sum.splits)
  from Cons.IH [OF this] show ?case by simp
qed

lemma demand_keys_valid_two: "demand_keys_valid (a # b # ks) \<Longrightarrow> a = b"
  unfolding demand_keys_valid_def list_all_iff
  by (meson list.set_intros)

lemma merge_coverages_two:
  assumes "merge_coverages [A, B] = Inr M"
  shows "\<exists>binary. merge_into binary B A = Inr M"
    and "fst ` set (demands A) = fst ` set (demands B)"
proof -
  from assms obtain dks cty where c: "merge_checks [A, B] [] [] None = Inr (dks, cty)"
    and v: "demand_keys_valid dks"
    and m: "efold (merge_into (cty = Some ''Binary'')) [B] A = Inr M"
    by (auto simp: merge_coverages_def ebind_def split: sum.splits if_splits)
  from m show "\<exists>binary. merge_into binary B A = Inr M"
    by (auto split: sum.splits)
  from merge_checks_demand_keys [OF c]
  have "dks = [set (map fst (demands A)), set (map fst (demands B))]" by simp
  with v have "demand_keys_valid [set (map fst (demands A)), set (map fst (demands B))]"
    by (simp only:)
  then have "set (map fst (demands A)) = set (map fst (demands B))"
    by (rule demand_keys_valid_two)
  then show "fst ` set (demands A) = fst ` set (demands B)"
    by (simp only: set_map)
qed

lemma map_of_merge_facilities:
  "distinct (map fst fs) \<Longrightarrow> map_of (merge_facilities master_facilities fs) = map_of master_facilities ++ map_of fs"
proof -
  assume d: "distinct (map fst fs)"
  have "(\<lambda>(facility_type, ids). AList.update facility_type ids)
      = (\<lambda>kv :: string \<times> string list. AList.update (fst kv) (snd kv))"
    by (simp add: fun_eq_iff case_prod_beta)
  then have "merge_facilities master_facilities fs
      = fold (\<lambda>kv. AList.update (fst kv) (snd kv)) fs master_facilities"
    by (simp only: merge_facilities_def)
  with map_of_fold_update [OF d, of master_facilities] show ?thesis
    by (simp only:)
qed

lemma merge_into_content:
  assumes "merge_into binary B A = Inr M" "wf_store A" "wf_store B"
      and "fst ` set (facilities A) \<inter> fst ` set (facilities B) = {}"
      and "fst ` set (demands A) = fst ` set (demands B)"
  shows "map_of (facilities M) = map_of (facilities A) ++ map_of (facilities B)"
    and "map_option cov_map (map_of (demands M) d) =
           (case (map_of (demands A) d, map_of (demands B) d) of
              (Some ra, Some rb) \<Rightarrow> Some (cov_map ra ++ cov_map rb)
            | _ \<Rightarrow> None)"
proof -
  from assms(1) have f: "facilities M = merge_facilities (facilities A) (facilities B)"
    and e: "efold (merge_demand binary) (demands B) (demands A) = Inr (demands M)"
    by (auto simp: merge_into_def ebind_def split: sum.splits)
  from assms(3) have db: "distinct (map fst (facilities B))" and dd: "distinct (map fst (demands B))"
    by (simp_all add: wf_store_def)
  from f map_of_merge_facilities [OF db]
  show "map_of (facilities M) = map_of (facilities A) ++ map_of (facilities B)" by simp
  from assms(3) have w: "\<forall>e \<in> set (demands B). \<forall>tm \<in> set (coverage (snd e)). distinct (map fst (snd tm))"
    by (fastforce simp: wf_store_def list_all_iff)
  note c = merge_demands_cov_map [OF e dd w, of d]
  show "map_option cov_map (map_of (demands M) d) =
           (case (map_of (demands A) d, map_of (demands B) d) of
              (Some ra, Some rb) \<Rightarrow> Some (cov_map ra ++ cov_map rb)
            | _ \<Rightarrow> None)"
  proof (cases "map_of (demands B) d")
    case None
    then have "d \<notin> fst ` set (demands B)" by (simp add: map_of_eq_None_iff)
    with assms(5) have "map_of (demands A) d = None" by (simp add: map_of_eq_None_iff)
    with c None show ?thesis by simp
  next
    case (Some rb)
    then have "d \<in> fst ` set (demands B)" by (metis map_of_eq_None_iff option.distinct(1))
    with assms(5) obtain ra where ra: "map_of (demands A) d = Some ra"
      by (metis map_of_eq_None_iff not_None_eq)
    from Some have mb: "(d, rb) \<in> set (demands B)" by (rule map_of_SomeD)
    from ra have ma: "(d, ra) \<in> set (demands A)" by (rule map_of_SomeD)
    from mb assms(3) have kb: "distinct (map fst (coverage rb))"
      and tb: "fst ` set (coverage rb) \<subseteq> fst ` set (facilities B)"
      by (fastforce simp: wf_store_def list_all_iff)+
    from ma assms(2) have ta: "fst ` set (coverage ra) \<subseteq> fst ` set (facilities A)"
      by (fastforce simp: wf_store_def list_all_iff)
    from ta tb assms(4) have "\<forall>ft \<in> fst ` set (coverage rb). cov_map ra ft = None"
      by (auto simp: cov_map_def map_of_eq_None_iff)
    from fold_cm_step_fresh [OF kb this]
    have "fold cm_step (coverage rb) (cov_map ra) = cov_map ra ++ cov_map rb"
      by (simp add: cov_map_def)
    with c Some ra show ?thesis by simp
  qed
qed

lemma dom_cov_map: "dom (cov_map r) = fst ` set (coverage r)"
  by (auto simp: cov_map_def dom_def map_of_eq_None_iff)

lemma merge_coverages_same_content:
  assumes "merge_coverages [A, B] = Inr M1"
      and "merge_coverages [B, A] = Inr M2"
      and "wf_store A" and "wf_store B"
      and "fst ` set (facilities A) \<inter> fst ` set (facilities B) = {}"
  shows "map_of (facilities M1) = map_of (facilities M2)
       \<and> (\<forall>d. map_option cov_map (map_of (demands M1) d) = map_option cov_map (map_of (demands M2) d))"
proof -
  from merge_coverages_two [OF assms(1)] obtain b1 where m1: "merge_into b1 B A = Inr M1"
    and k: "fst ` set (demands A) = fst ` set (demands B)" by blast
  from merge_coverages_two [OF assms(2)] obtain b2 where m2: "merge_into b2 A B = Inr M2" by blast
  from assms(5) have disj: "fst ` set (facilities B) \<inter> fst ` set (facilities A) = {}" by blast
  note c1 = merge_into_content [OF m1 assms(3,4,5) k]
  note c2 = merge_into_content [OF m2 assms(4,3) disj k [symmetric]]
  from assms(5) have "dom (map_of (facilities A)) \<inter> dom (map_of (facilities B)) = {}"
    by (simp add: dom_map_of_conv_image_fst)
  then have "map_of (facilities A) ++ map_of (facilities B) = map_of (facilities B) ++ map_of (facilities A)"
    by (rule map_add_comm)
  with c1(1) c2(1) have f: "map_of (facilities M1) = map_of (facilities M2)"
    by (simp only:)
  have "map_option cov_map (map_of (demands M1) d) = map_option cov_map (map_of (demands M2) d)" for d
  proof (cases "map_of (demands A) d")
    case None
    with c1(2) [of d] c2(2) [of d] show ?thesis by (simp split: option.splits)
  next
    case ra: (Some ra)
    show ?thesis
    proof (cases "map_of (demands B) d")
      case None
      with c1(2) [of d] c2(2) [of d] ra show ?thesis by simp
    next
      case rb: (Some rb)
      from ra assms(3) have "fst ` set (coverage ra) \<subseteq> fst ` set (facilities A)"
        by (fastforce simp: wf_store_def list_all_iff dest!: map_of_SomeD)
      moreover from rb assms(4) have "fst ` set (coverage rb) \<subseteq> fst ` set (facilities B)"
        by (fastforce simp: wf_store_def list_all_iff dest!: map_of_SomeD)
      ultimately have "dom (cov_map ra) \<inter> dom (cov_map rb) = {}"
        using assms(5) by (auto simp: dom_cov_map)
      then have "cov_map ra ++ cov_map rb = cov_map rb ++ cov_map ra"
        by (rule map_add_comm)
      moreover from c1(2) [of d] ra rb
      have "map_option cov_map (map_of (demands M1) d) = Some (cov_map ra ++ cov_map rb)" by simp
      moreover from c2(2) [of d] ra rb
      have "map_option cov_map (map_of (demands M2) d) = Some (cov_map rb ++ cov_map ra)" by simp
      ultimately show ?thesis by (simp only:)
    qed
  qed
  with f show ?thesis by blast
qed

lemma check_facility_types_fresh:
  "distinct fs \<Longrightarrow> set fs \<inter> set acc = {} \<Longrightarrow> check_facility_types fs acc = Inr (acc @ fs)"
proof (induction fs arbitrary: acc)
  case Nil
  show ?case by simp
next
  case (Cons f fs)
  from Cons.prems have "distinct fs" "set fs \<inter> set (acc @ [f]) = {}" "f \<notin> set acc"
    by auto
  with Cons.IH [of "acc @ [f]"] show ?case by simp
qed

lemma merge_fac_not_binary: "\<exists>st'. efold (merge_fac False crec) xs st = Inr st'"
  by (induction xs arbitrary: st) (simp_all add: merge_fac_def)

lemma merge_type_not_binary: "\<exists>mrec'. merge_type False crec tm mrec = Inr mrec'"
proof -
  define cov0 where "cov0 = (if fst tm \<notin> fst ` set (coverage mrec)
                  then AList.update (fst tm) [] (coverage mrec) else coverage mrec)"
  define m0 where "m0 = (case map_of cov0 (fst tm) of None \<Rightarrow> [] | Some m \<Rightarrow> m)"
  from merge_fac_not_binary [of crec "snd tm" "(m0, serviceableDemand mrec)"]
  obtain st where "efold (merge_fac False crec) (snd tm) (m0, serviceableDemand mrec) = Inr st"
    by blast
  then show ?thesis
    by (simp add: merge_type_def ebind_def Let_def cov0_def m0_def)
qed

lemma merge_demand_steps_not_binary:
  assumes "d \<in> fst ` set md"
  shows "\<exists>md1. efold (\<lambda>tm md'. ebind (getitem md' d) (\<lambda>mrec.
                   ebind (merge_type False crec tm mrec) (\<lambda>mrec'. Inr (AList.update d mrec' md'))))
             cov md = Inr md1 \<and> fst ` set md1 = fst ` set md"
  using assms
proof (induction cov arbitrary: md)
  case Nil
  show ?case by simp
next
  case (Cons tm cov)
  from Cons.prems obtain mrec where g: "map_of md d = Some mrec"
    by (metis map_of_eq_None_iff not_None_eq)
  obtain mrec' where t: "merge_type False crec tm mrec = Inr mrec'"
    using merge_type_not_binary by blast
  from Cons.prems have k: "fst ` set (AList.update d mrec' md) = fst ` set md"
    by (auto simp: dom_update)
  with Cons.prems have "d \<in> fst ` set (AList.update d mrec' md)" by simp
  from Cons.IH [OF this] g t k show ?case
    by (simp add: ebind_def getitem_def)
qed

lemma merge_demands_not_binary:
  assumes "fst ` set ds \<subseteq> fst ` set md"
  shows "\<exists>md1. efold (merge_demand False) ds md = Inr md1 \<and> fst ` set md1 = fst ` set md"
  using assms
proof (induction ds arbitrary: md)
  case Nil
  show ?case by simp
next
  case (Cons e ds)
  from Cons.prems have "fst e \<in> fst ` set md" by simp
  from merge_demand_steps_not_binary [OF this, of "snd e" "coverage (snd e)"]
  obtain md0 where s: "merge_demand False e md = Inr md0" and k: "fst ` set md0 = fst ` set md"
    by (auto simp: merge_demand_def)
  with Cons.prems have "fst ` set ds \<subseteq> fst ` set md0" by simp
  from Cons.IH [OF this] s k show ?case by simp
qed

lemma merge_coverages_returns:
  assumes "read_type A = Inr ty" and "ty \<noteq> ''Binary''"
      and "validate_coverage A [''coverage''] [ty] = Inr ()"
      and "validate_coverage B [''coverage''] [ty] = Inr ()"
      and "fst ` set (demands A) = fst ` set (demands B)"
      and "distinct (map fst (facilities A))" and "distinct (map fst (facilities B))"
      and "fst ` set (facilities A) \<inter> fst ` set (facilities B) = {}"
  shows "\<exists>M. merge_coverages [A, B] = Inr M"
proof -
  from assms(6) have da: "distinct (facilities A)" by (rule distinct_map [THEN iffD1, THEN conjunct1])
  from assms(7) have db: "distinct (facilities B)" by (rule distinct_map [THEN iffD1, THEN conjunct1])
  from assms(8) have disj: "set (facilities B) \<inter> set ([] @ facilities A) = {}" by force
  have ca: "check_facility_types (facilities A) [] = Inr ([] @ facilities A)"
    by (rule check_facility_types_fresh [OF da]) simp
  have cb: "check_facility_types (facilities B) ([] @ facilities A) = Inr (([] @ facilities A) @ facilities B)"
    by (rule check_facility_types_fresh [OF db disj])
  from assms(1,3,4) ca cb
  have c: "merge_checks [A, B] [] [] None
         = Inr ([set (map fst (demands A)), set (map fst (demands B))], Some ty)"
    by (simp add: ebind_def)
  from assms(5) have v: "demand_keys_valid [set (map fst (demands A)), set (map fst (demands B))]"
    by (simp add: demand_keys_valid_def)
  from assms(5) have "fst ` set (demands B) \<subseteq> fst ` set (demands A)" by simp
  from merge_demands_not_binary [OF this] obtain md where
    "efold (merge_demand False) (demands B) (demands A) = Inr md" by blast
  then have "\<exists>M. merge_into False B A = Inr M"
    by (simp add: merge_into_def ebind_def)
  with c v assms(2) show ?thesis
    by (auto simp: merge_coverages_def ebind_def)
qed

lemma validate_coverage_read_type:
  "validate_coverage c modes [ty] = Inr () \<Longrightarrow> read_type c = Inr ty"
  by (auto simp: validate_coverage_def read_type_def split: option.splits if_splits)

text \<open>
  Claim C4, as the code has it. Take two well-formed coverages that satisfy the
  preconditions of the merge: the same kind, the same demand ids, disjoint facility type
  names. Unless the kind is spelled \<open>Binary\<close>, the merge returns in both orders. Whenever
  it returns in both orders, the two merged coverages have the same facilities map and,
  for every demand id, the same coverage map (the demand unit is present in both or in
  neither). Nothing is said about the serviceable demand.
\<close>

theorem merge_coverages_order:
  assumes "wf_store A" and "wf_store B"
      and "validate_coverage A [''coverage''] [ty] = Inr ()"
      and "validate_coverage B [''coverage''] [ty] = Inr ()"
      and "fst ` set (demands A) = fst ` set (demands B)"
      and "fst ` set (facilities A) \<inter> fst ` set (facilities B) = {}"
  shows "(ty \<noteq> ''Binary'' \<longrightarrow>
            (\<exists>M1 M2. merge_coverages [A, B] = Inr M1 \<and> merge_coverages [B, A] = Inr M2))
       \<and> (\<forall>M1 M2. merge_coverages [A, B] = Inr M1 \<and> merge_coverages [B, A] = Inr M2 \<longrightarrow>
            map_of (facilities M1) = map_of (facilities M2)
          \<and> (\<forall>d. map_option cov_map (map_of (demands M1) d)
                   = map_option cov_map (map_of (demands M2) d)))"
proof -
  from assms(1,2) have da: "distinct (map fst (facilities A))" and db: "distinct (map fst (facilities B))"
    by (simp_all add: wf_store_def)
  from assms(6) have disj: "fst ` set (facilities B) \<inter> fst ` set (facilities A) = {}" by blast
  have "\<exists>M1 M2. merge_coverages [A, B] = Inr M1 \<and> merge_coverages [B, A] = Inr M2" if "ty \<noteq> ''Binary''"
    using merge_coverages_returns [OF validate_coverage_read_type [OF assms(3)] that assms(3,4,5) da db assms(6)]
      merge_coverages_returns [OF validate_coverage_read_type [OF assms(4)] that assms(4,3) assms(5) [symmetric] db da disj]
    by blast
  with merge_coverages_same_content [OF _ _ assms(1,2,6)] show ?thesis
    by blast
qed

text \<open>The theorem on two partial coverages with the facility types \<open>A\<close> and \<open>B\<close>.\<close>

theorem merge_coverages_order_witness:
  "wf_store (ex_merge_a ''partial'') \<and> wf_store (ex_merge_b ''partial'')
   \<and> validate_coverage (ex_merge_a ''partial'') [''coverage''] [''partial''] = Inr ()
   \<and> validate_coverage (ex_merge_b ''partial'') [''coverage''] [''partial''] = Inr ()
   \<and> fst ` set (demands (ex_merge_a ''partial'')) = fst ` set (demands (ex_merge_b ''partial''))
   \<and> fst ` set (facilities (ex_merge_a ''partial'')) \<inter> fst ` set (facilities (ex_merge_b ''partial'')) = {}
   \<and> merge_coverages [ex_merge_a ''partial'', ex_merge_b ''partial''] = Inr (ex_merged_ab ''partial'')
   \<and> merge_coverages [ex_merge_b ''partial'', ex_merge_a ''partial''] = Inr (ex_merged_ba ''partial'')
   \<and> map_of (facilities (ex_merged_ab ''partial'')) = map_of (facilities (ex_merged_ba ''partial''))
   \<and> (\<forall>d. map_option cov_map (map_of (demands (ex_merged_ab ''partial'')) d)
            = map_option cov_map (map_of (demands (ex_merged_ba ''partial'')) d))"
proof -
  have h1: "wf_store (ex_merge_a ''partial'')"
    by (simp add: wf_store_def ex_merge_a_def)
  have h2: "wf_store (ex_merge_b ''partial'')"
    by (simp add: wf_store_def ex_merge_b_def)
  have h3: "validate_coverage (ex_merge_a ''partial'') [''coverage''] [''partial''] = Inr ()"
    by (simp add: validate_coverage_def ex_merge_a_def)
  have h4: "validate_coverage (ex_merge_b ''partial'') [''coverage''] [''partial''] = Inr ()"
    by (simp add: validate_coverage_def ex_merge_b_def)
  have h5: "fst ` set (demands (ex_merge_a ''partial'')) = fst ` set (demands (ex_merge_b ''partial''))"
    by (simp add: ex_merge_a_def ex_merge_b_def)
  have h6: "fst ` set (facilities (ex_merge_a ''partial'')) \<inter> fst ` set (facilities (ex_merge_b ''partial'')) = {}"
    by (simp add: ex_merge_a_def ex_merge_b_def)
  have m1: "merge_coverages [ex_merge_a ''partial'', ex_merge_b ''partial''] = Inr (ex_merged_ab ''partial'')"
    by (simp add: ex_merge_a_def ex_merge_b_def ex_merged_ab_def merge_defs)
  have m2: "merge_coverages [ex_merge_b ''partial'', ex_merge_a ''partial''] = Inr (ex_merged_ba ''partial'')"
    by (simp add: ex_merge_a_def ex_merge_b_def ex_merged_ba_def merge_defs)
  from merge_coverages_order [OF h1 h2 h3 h4 h5 h6] h1 h2 h3 h4 h5 h6 m1 m2
  show ?thesis by blast
qed

text \<open>
  Claim C4 as stated fails on the same two partial coverages, which satisfy the
  preconditions of the merge: the merged coverage starts as a copy of the first one and,
  for a partial coverage, its serviceable demand is never touched, so the serviceable
  demand of \<open>d1\<close> is 0 in one order and 10 in the other.
\<close>

theorem merge_coverages_serviceable_demand_counterexample:
  "wf_store (ex_merge_a ''partial'') \<and> wf_store (ex_merge_b ''partial'')
   \<and> validate_coverage (ex_merge_a ''partial'') [''coverage''] [''partial''] = Inr ()
   \<and> validate_coverage (ex_merge_b ''partial'') [''coverage''] [''partial''] = Inr ()
   \<and> fst ` set (facilities (ex_merge_a ''partial'')) \<inter> fst ` set (facilities (ex_merge_b ''partial'')) = {}
   \<and> fst ` set (demands (ex_merge_a ''partial'')) = fst ` set (demands (ex_merge_b ''partial''))
   \<and> ebind (merge_coverages [ex_merge_a ''partial'', ex_merge_b ''partial''])
            (\<lambda>m. Inr (map (\<lambda>e. (fst e, serviceableDemand (snd e))) (demands m)))
       = Inr [(''d1'', Num 0)]
   \<and> ebind (merge_coverages [ex_merge_b ''partial'', ex_merge_a ''partial''])
            (\<lambda>m. Inr (map (\<lambda>e. (fst e, serviceableDemand (snd e))) (demands m)))
       = Inr [(''d1'', Num 10)]"
  by (simp add: wf_store_def ex_merge_a_def ex_merge_b_def merge_defs)

end
